theory Spec2Isabelle
  imports Complex_Main "HOL-Library.Sublist" "HOL-Library.Log_Nat"
begin

section \<open>REINFORCE on CartPole: the policy-gradient notebook\<close>

text \<open>
  The development embeds the code cells of \<^verbatim>\<open>8_Reinforcement/8.3-EXE_Policy_Gradient.ipynb\<close>
  that carry logic of their own: \<^verbatim>\<open>compute_returns\<close>, \<^verbatim>\<open>PolicyNet.loss\<close> and the training
  cell with its rollout loop and its \<^verbatim>\<open>try\<close>/\<^verbatim>\<open>except KeyboardInterrupt\<close>.

  Numbers. The source computes in IEEE floating point (numpy \<^verbatim>\<open>float64\<close>, torch
  \<^verbatim>\<open>float32\<close>). \<^verbatim>\<open>compute_returns\<close> is modelled for an arbitrary number type that has
  \<open>0\<close>, \<open>+\<close> and \<open>*\<close>, so what is proved about its structure holds whatever the two
  operations compute. The type \<open>float64\<close> below gives them the meaning they have in
  numpy; the type \<open>real\<close> gives them their exact meaning. The loss and the metrics of the
  training cell are modelled in exact arithmetic.
\<close>

subsection \<open>Exceptions\<close>

text \<open>
  A raised exception is a value: a computation returns \<open>Inl e\<close> when it raises \<open>e\<close> and
  \<open>Inr v\<close> when it returns \<open>v\<close>. \<open>Raised name\<close> stands for any exception class the
  notebook does not mention by itself (what the environment or torch may raise).
\<close>

datatype py_exception =
    IndexError
  | ZeroDivisionError
  | RuntimeError
  | KeyboardInterrupt
  | Raised string

subsection \<open>Sequences with Python indexing\<close>

text \<open>
  \<^verbatim>\<open>xs[i]\<close> for a list or a one-dimensional array: an index below zero counts from the
  end, and an index outside \<^verbatim>\<open>-len(xs) .. len(xs)-1\<close> raises \<^verbatim>\<open>IndexError\<close>.
\<close>

definition norm_index :: "nat \<Rightarrow> int \<Rightarrow> py_exception + nat" where
  "norm_index n i =
     (if 0 \<le> i \<and> i < int n then Inr (nat i)
      else if i < 0 \<and> - int n \<le> i then Inr (nat (int n + i))
      else Inl IndexError)"

definition getitem :: "'a list \<Rightarrow> int \<Rightarrow> py_exception + 'a" where
  "getitem xs i =
     (case norm_index (length xs) i of
        Inl e \<Rightarrow> Inl e
      | Inr k \<Rightarrow> Inr (xs ! k))"

definition setitem :: "'a list \<Rightarrow> int \<Rightarrow> 'a \<Rightarrow> py_exception + 'a list" where
  "setitem xs i v =
     (case norm_index (length xs) i of
        Inl e \<Rightarrow> Inl e
      | Inr k \<Rightarrow> Inr (xs[k := v]))"

definition np_zeros :: "nat \<Rightarrow> 'a::zero list" where
  "np_zeros n = replicate n 0"

subsection \<open>\<^verbatim>\<open>compute_returns\<close>\<close>

text \<open>
  \<^verbatim>\<open>
  def compute_returns(rewards, discount_factor):
      returns = np.zeros(len(rewards))
      returns[-1] = rewards[-1]
      for t in reversed(range(len(rewards)-1)):
          returns[t] = rewards[t] + discount_factor * returns[t+1]
      return returns
  \<close>
  The loop is a recursion over the values \<open>t\<close> takes, in the order it takes them; every
  read and write goes through \<open>getitem\<close> and \<open>setitem\<close>, so an access out of range
  would show as \<open>Inl IndexError\<close>.
\<close>

fun returns_loop ::
  "'a::{zero,plus,times} list \<Rightarrow> 'a \<Rightarrow> nat list \<Rightarrow> 'a list \<Rightarrow> py_exception + 'a list" where
  "returns_loop rewards discount_factor [] returns = Inr returns"
| "returns_loop rewards discount_factor (t # ts) returns =
     (case getitem rewards (int t) of
        Inl e \<Rightarrow> Inl e
      | Inr r \<Rightarrow>
          (case getitem returns (int t + 1) of
             Inl e \<Rightarrow> Inl e
           | Inr g \<Rightarrow>
               (case setitem returns (int t) (r + discount_factor * g) of
                  Inl e \<Rightarrow> Inl e
                | Inr returns' \<Rightarrow> returns_loop rewards discount_factor ts returns')))"

definition compute_returns ::
  "'a::{zero,plus,times} list \<Rightarrow> 'a \<Rightarrow> py_exception + 'a list" where
  "compute_returns rewards discount_factor =
     (let returns = np_zeros (length rewards) in
      case getitem rewards (- 1) of
        Inl e \<Rightarrow> Inl e
      | Inr r \<Rightarrow>
          (case setitem returns (- 1) r of
             Inl e \<Rightarrow> Inl e
           | Inr returns' \<Rightarrow>
               returns_loop rewards discount_factor
                 (rev [0 ..< length rewards - 1]) returns'))"

subsection \<open>\<^verbatim>\<open>compute_returns\<close> on a store of arrays\<close>

text \<open>
  The same function with its arrays in a store, to speak about what a call leaves behind:
  an array is known by its address, \<^verbatim>\<open>np.zeros\<close> allocates a new one, and
  \<^verbatim>\<open>returns[t] = ...\<close> overwrites one entry of the array at the address of \<^verbatim>\<open>returns\<close>.
  The store is the list of the arrays allocated so far, and an address is a position in it.
  A call returns the store it leaves together with the address of its result, or with the
  exception it raised.
\<close>

type_synonym 'a store = "'a list list"

definition alloc :: "'a list \<Rightarrow> 'a store \<Rightarrow> nat \<times> 'a store" where
  "alloc arr h = (length h, h @ [arr])"

definition store_getitem :: "'a store \<Rightarrow> nat \<Rightarrow> int \<Rightarrow> py_exception + 'a" where
  "store_getitem h p i = getitem (h ! p) i"

definition store_setitem :: "'a store \<Rightarrow> nat \<Rightarrow> int \<Rightarrow> 'a \<Rightarrow> py_exception + 'a store" where
  "store_setitem h p i v =
     (case setitem (h ! p) i v of
        Inl e \<Rightarrow> Inl e
      | Inr arr \<Rightarrow> Inr (h[p := arr]))"

fun returns_loop_store ::
  "nat \<Rightarrow> nat \<Rightarrow> 'a::{zero,plus,times} \<Rightarrow> nat list \<Rightarrow> 'a store
     \<Rightarrow> 'a store \<times> (py_exception + nat)" where
  "returns_loop_store rewards returns discount_factor [] h = (h, Inr returns)"
| "returns_loop_store rewards returns discount_factor (t # ts) h =
     (case store_getitem h rewards (int t) of
        Inl e \<Rightarrow> (h, Inl e)
      | Inr r \<Rightarrow>
          (case store_getitem h returns (int t + 1) of
             Inl e \<Rightarrow> (h, Inl e)
           | Inr g \<Rightarrow>
               (case store_setitem h returns (int t) (r + discount_factor * g) of
                  Inl e \<Rightarrow> (h, Inl e)
                | Inr h' \<Rightarrow> returns_loop_store rewards returns discount_factor ts h')))"

definition compute_returns_store ::
  "nat \<Rightarrow> 'a::{zero,plus,times} \<Rightarrow> 'a store \<Rightarrow> 'a store \<times> (py_exception + nat)" where
  "compute_returns_store rewards discount_factor h =
     (case alloc (np_zeros (length (h ! rewards))) h of
        (returns, h1) \<Rightarrow>
          (case store_getitem h1 rewards (- 1) of
             Inl e \<Rightarrow> (h1, Inl e)
           | Inr r \<Rightarrow>
               (case store_setitem h1 returns (- 1) r of
                  Inl e \<Rightarrow> (h1, Inl e)
                | Inr h2 \<Rightarrow>
                    returns_loop_store rewards returns discount_factor
                      (rev [0 ..< length (h2 ! rewards) - 1]) h2)))"

text \<open>
  What the caller sees of a call: the exception, or the contents of the array returned.
\<close>

definition outcome :: "'a store \<times> (py_exception + nat) \<Rightarrow> py_exception + 'a list" where
  "outcome res =
     (case snd res of
        Inl e \<Rightarrow> Inl e
      | Inr p \<Rightarrow> Inr (fst res ! p))"

subsection \<open>\<^verbatim>\<open>PolicyNet.loss\<close>\<close>

text \<open>
  \<^verbatim>\<open>
  def loss(self, action_probabilities, returns):
      return -torch.mean(torch.mul(torch.log(action_probabilities), returns))
  \<close>
  Both arguments are one-dimensional tensors, modelled as lists of reals.
  \<^item> \<^verbatim>\<open>torch.log\<close> is the natural logarithm entry by entry. On an entry that is not
    positive torch gives \<^verbatim>\<open>-inf\<close> or \<^verbatim>\<open>nan\<close>, which the reals do not have; the model is
    the source's only on positive entries.
  \<^item> \<^verbatim>\<open>torch.mul\<close> multiplies entry by entry; a tensor of one entry is broadcast, and any
    other difference of lengths raises \<^verbatim>\<open>RuntimeError\<close>.
  \<^item> \<^verbatim>\<open>torch.mean\<close> is the sum over the number of entries. On the empty tensor torch
    gives \<^verbatim>\<open>nan\<close>; the model is the source's only on non-empty tensors.
\<close>

definition torch_log :: "real list \<Rightarrow> real list" where
  "torch_log x = map ln x"

definition torch_mul :: "real list \<Rightarrow> real list \<Rightarrow> py_exception + real list" where
  "torch_mul x y =
     (if length x = length y then Inr (map2 (*) x y)
      else if length x = 1 then Inr (map (\<lambda>b. hd x * b) y)
      else if length y = 1 then Inr (map (\<lambda>a. a * hd y) x)
      else Inl RuntimeError)"

definition torch_mean :: "real list \<Rightarrow> real" where
  "torch_mean x = sum_list x / real (length x)"

definition loss :: "real list \<Rightarrow> real list \<Rightarrow> py_exception + real" where
  "loss action_probabilities returns =
     (case torch_mul (torch_log action_probabilities) returns of
        Inl e \<Rightarrow> Inl e
      | Inr products \<Rightarrow> Inr (- torch_mean products))"

text \<open>
  \<^verbatim>\<open>probs.gather(1, actions).view(-1)\<close>, for \<^verbatim>\<open>probs\<close> of shape \<open>(N, A)\<close> and \<^verbatim>\<open>actions\<close> of
  shape \<open>(M, 1)\<close>: entry \<open>t\<close> of the result is \<^verbatim>\<open>probs[t][actions[t]]\<close>. torch raises
  \<^verbatim>\<open>RuntimeError\<close> when the index has more rows than \<^verbatim>\<open>probs\<close> or an action is not a
  column of its row.
\<close>

fun gather1 :: "real list list \<Rightarrow> nat list \<Rightarrow> py_exception + real list" where
  "gather1 rows [] = Inr []"
| "gather1 [] (a # as) = Inl RuntimeError"
| "gather1 (row # rows) (a # as) =
     (if a < length row then
        (case gather1 rows as of
           Inl e \<Rightarrow> Inl e
         | Inr ps \<Rightarrow> Inr (row ! a # ps))
      else Inl RuntimeError)"

subsection \<open>The numbers of numpy: \<^verbatim>\<open>float64\<close>\<close>

text \<open>
  \<^verbatim>\<open>np.zeros\<close> makes an array of \<^verbatim>\<open>float64\<close>, so the sums and products of
  \<^verbatim>\<open>compute_returns\<close> are those of IEEE 754 binary64 with rounding to nearest, ties to
  even. A value is a real number with a significand of 53 bits and an exponent between
  \<open>-1022\<close> and \<open>1023\<close> (below that, a multiple of \<^verbatim>\<open>2**-1074\<close>), an infinity, or
  not-a-number. The two zeros are one value here: they compare equal, and nothing in the
  notebook divides by them.

  \<open>ilog2 x\<close> is the exponent of \<open>x > 0\<close>, the integer \<open>e\<close> with \<open>2\<^sup>e \<le> x < 2\<^sup>e\<^sup>+\<^sup>1\<close>;
  \<open>round64\<close> rounds a real number to the nearest multiple of the unit in its last
  place; \<open>float64_of\<close> gives the infinity when the rounded number needs an exponent above
  \<open>1023\<close>.
\<close>

definition ilog2 :: "real \<Rightarrow> int" where
  "ilog2 x = (if 0 < x then \<lfloor>log 2 x\<rfloor> else 0)"

definition round_half_even :: "real \<Rightarrow> int" where
  "round_half_even y =
     (let f = \<lfloor>y\<rfloor> in
      if y - of_int f < 1 / 2 then f
      else if 1 / 2 < y - of_int f then f + 1
      else if even f then f else f + 1)"

definition round64 :: "real \<Rightarrow> real" where
  "round64 x =
     (if x = 0 then 0
      else let e = max (ilog2 \<bar>x\<bar>) (- 1022) - 52
           in of_int (round_half_even (x / 2 powi e)) * 2 powi e)"

datatype float64 = Finite real | PosInf | NegInf | NaN

definition float64_of :: "real \<Rightarrow> float64" where
  "float64_of x =
     (let y = round64 x in
      if y \<noteq> 0 \<and> 1024 \<le> ilog2 \<bar>y\<bar> then (if 0 < y then PosInf else NegInf)
      else Finite y)"

fun float64_add :: "float64 \<Rightarrow> float64 \<Rightarrow> float64" where
  "float64_add (Finite x) (Finite y) = float64_of (x + y)"
| "float64_add NaN y = NaN"
| "float64_add x NaN = NaN"
| "float64_add PosInf NegInf = NaN"
| "float64_add NegInf PosInf = NaN"
| "float64_add PosInf y = PosInf"
| "float64_add x PosInf = PosInf"
| "float64_add NegInf y = NegInf"
| "float64_add x NegInf = NegInf"

fun float64_mul :: "float64 \<Rightarrow> float64 \<Rightarrow> float64" where
  "float64_mul (Finite x) (Finite y) = float64_of (x * y)"
| "float64_mul NaN y = NaN"
| "float64_mul x NaN = NaN"
| "float64_mul PosInf (Finite y) = (if y = 0 then NaN else if 0 < y then PosInf else NegInf)"
| "float64_mul NegInf (Finite y) = (if y = 0 then NaN else if 0 < y then NegInf else PosInf)"
| "float64_mul (Finite x) PosInf = (if x = 0 then NaN else if 0 < x then PosInf else NegInf)"
| "float64_mul (Finite x) NegInf = (if x = 0 then NaN else if 0 < x then NegInf else PosInf)"
| "float64_mul PosInf PosInf = PosInf"
| "float64_mul NegInf NegInf = PosInf"
| "float64_mul PosInf NegInf = NegInf"
| "float64_mul NegInf PosInf = NegInf"

instantiation float64 :: "{zero, one, plus, times}"
begin

definition zero_float64 :: float64 where
  "zero_float64 = Finite 0"

definition one_float64 :: float64 where
  "one_float64 = Finite 1"

definition plus_float64 :: "float64 \<Rightarrow> float64 \<Rightarrow> float64" where
  "plus_float64 x y = float64_add x y"

definition times_float64 :: "float64 \<Rightarrow> float64 \<Rightarrow> float64" where
  "times_float64 x y = float64_mul x y"

instance ..

end

text \<open>
  Python's built-in \<^verbatim>\<open>sum\<close>, which the cell applies to the rewards: it starts from \<open>0\<close>
  and adds the entries from the first to the last.
\<close>

definition py_sum :: "'a::{zero,plus} list \<Rightarrow> 'a" where
  "py_sum xs = foldl (+) 0 xs"

subsection \<open>The training cell\<close>

text \<open>
  The settings of the cell.
  \<^verbatim>\<open>
  num_episodes = 800
  rollout_limit = 500 # max rollout length
  discount_factor = 1.0 # reward discount factor (gamma), 1.0 = no discount
  learning_rate = 0.001 # you know this by now
  val_freq = 100 # validation frequency
  \<close>
  The functions below take the settings as an argument, so that what is proved of them
  holds for these values and for any others.
\<close>

record config =
  num_episodes :: nat
  rollout_limit :: nat
  discount_factor :: real
  learning_rate :: real
  val_freq :: nat

definition settings :: config where
  "settings =
     \<lparr>num_episodes = 800, rollout_limit = 500, discount_factor = 1,
      learning_rate = 1 / 1000, val_freq = 100\<rparr>"

text \<open>
  The environment (gym), the network with its optimizer and random generator (torch) and
  the Python interpreter's handling of signals are not code of the notebook. They are a
  parameter of the model: a type \<open>'w\<close> of what they hold between calls (the environment's
  state, the network's weights and gradients, the optimizer's moments, the generator's
  seed, the time), and one function for each call the cell makes on them. Each call
  returns a value and the new \<open>'w\<close>, or raises.
  \<^item> \<open>env_reset\<close>: \<^verbatim>\<open>env.reset()\<close>.
  \<^item> \<open>env_step a\<close>: \<^verbatim>\<open>env.step(a)\<close>, giving \<^verbatim>\<open>(s1, r, done)\<close> (the fourth component is
    dropped by the cell).
  \<^item> \<open>policy s\<close>: \<^verbatim>\<open>policy(...)\<close> on one state, the row of action probabilities.
    \<^verbatim>\<open>PolicyNet.forward\<close> works row by row (linear layer, relu, linear layer, softmax
    along dimension 1), so on a batch of states it is this function on each state.
  \<^item> \<open>multinomial\<close>: \<^verbatim>\<open>torch.multinomial(a_prob, num_samples=1).squeeze().numpy()\<close>.
  \<^item> \<open>argmax\<close>: \<^verbatim>\<open>a_prob.argmax().item()\<close>.
  \<^item> \<open>zero_grad\<close>: \<^verbatim>\<open>policy.optimizer.zero_grad()\<close>.
  \<^item> \<open>backward states actions returns\<close>: \<^verbatim>\<open>loss.backward()\<close> for the loss of this batch.
  \<^item> \<open>optimizer_step\<close>: \<^verbatim>\<open>policy.optimizer.step()\<close>.
  \<^item> \<open>signal\<close>: the interpreter's look at the pending signals, which it takes between
    two statements. \<open>None\<close> means that the user's interruption has arrived: the
    interpreter raises \<^verbatim>\<open>KeyboardInterrupt\<close> instead of running the next statement.
    \<open>Some w'\<close> means that the next statement runs, a moment later.

  An interruption can so arrive in two ways: a call of a collaborator raises
  \<^verbatim>\<open>KeyboardInterrupt\<close> (the signal came while gym or torch was at work), or \<open>signal\<close>
  gives \<open>None\<close> before a statement of the notebook. The model looks at \<open>signal\<close> before
  every statement of the \<^verbatim>\<open>try\<close> block and of the functions of the notebook that it calls.
  An interruption in the middle of a statement is the one before it when the statement
  has not yet changed anything, and the one before the next statement otherwise.
\<close>

record ('s, 'w) collaborators =
  env_reset :: "'w \<Rightarrow> py_exception + 's \<times> 'w"
  env_step :: "nat \<Rightarrow> 'w \<Rightarrow> py_exception + ('s \<times> real \<times> bool) \<times> 'w"
  policy :: "'s \<Rightarrow> 'w \<Rightarrow> py_exception + real list"
  multinomial :: "real list \<Rightarrow> 'w \<Rightarrow> py_exception + nat \<times> 'w"
  argmax :: "real list \<Rightarrow> py_exception + nat"
  zero_grad :: "'w \<Rightarrow> py_exception + 'w"
  backward :: "'s list \<Rightarrow> nat list \<Rightarrow> real list \<Rightarrow> 'w \<Rightarrow> py_exception + 'w"
  optimizer_step :: "'w \<Rightarrow> py_exception + 'w"
  signal :: "'w \<Rightarrow> 'w option"

definition check_signal :: "('s, 'w) collaborators \<Rightarrow> 'w \<Rightarrow> py_exception + 'w" where
  "check_signal c w =
     (case signal c w of
        None \<Rightarrow> Inl KeyboardInterrupt
      | Some w' \<Rightarrow> Inr w')"

text \<open>
  What the cell keeps and shows: the two lists it appends to, and the lines it prints.
\<close>

datatype line =
    Start_training
  | Progress nat real real real
  | Done
  | Interrupt

record metrics =
  training_rewards :: "real list"
  losses :: "real list"
  printed :: "line list"

text \<open>
  The rollout loop of a training episode.
  \<^verbatim>\<open>
  for j in range(rollout_limit):
      with torch.no_grad():
          a_prob = policy(torch.from_numpy(np.atleast_2d(s)).float())
          a = torch.multinomial(a_prob, num_samples=1).squeeze().numpy()
      s1, r, done, _ = env.step(a)
      rollout.append((s, a, r))
      s = s1
      if done: break
  \<close>
  \<^verbatim>\<open>rollout\<close> is a Python list, appended to in place, so the loop returns it in every
  case: with the state and the collaborators it ends on, or with the exception that was
  raised. The argument \<open>dones\<close> is a history variable that the source does not have: the
  list of the \<^verbatim>\<open>done\<close> flags of the steps appended, in order. It is only appended to and
  never read, and serves to state at which step the loop stopped.
\<close>

fun collect_rollout ::
  "('s, 'w) collaborators \<Rightarrow> nat list \<Rightarrow> 's \<Rightarrow> 'w \<Rightarrow> ('s \<times> nat \<times> real) list \<Rightarrow> bool list
     \<Rightarrow> ('s \<times> nat \<times> real) list \<times> bool list \<times> (py_exception + 's \<times> 'w)" where
  "collect_rollout c [] s w rollout dones = (rollout, dones, Inr (s, w))"
| "collect_rollout c (j # js) s w rollout dones =
     (case check_signal c w of \<comment> \<open>\<^verbatim>\<open>with torch.no_grad():\<close>\<close>
        Inl e \<Rightarrow> (rollout, dones, Inl e)
      | Inr w1 \<Rightarrow>
     (case check_signal c w1 of \<comment> \<open>\<^verbatim>\<open>a_prob = policy(...)\<close>\<close>
        Inl e \<Rightarrow> (rollout, dones, Inl e)
      | Inr w2 \<Rightarrow>
     (case policy c s w2 of
        Inl e \<Rightarrow> (rollout, dones, Inl e)
      | Inr a_prob \<Rightarrow>
     (case check_signal c w2 of \<comment> \<open>\<^verbatim>\<open>a = torch.multinomial(...)\<close>\<close>
        Inl e \<Rightarrow> (rollout, dones, Inl e)
      | Inr w3 \<Rightarrow>
     (case multinomial c a_prob w3 of
        Inl e \<Rightarrow> (rollout, dones, Inl e)
      | Inr (a, w4) \<Rightarrow>
     (case check_signal c w4 of \<comment> \<open>\<^verbatim>\<open>s1, r, done, _ = env.step(a)\<close>\<close>
        Inl e \<Rightarrow> (rollout, dones, Inl e)
      | Inr w5 \<Rightarrow>
     (case env_step c a w5 of
        Inl e \<Rightarrow> (rollout, dones, Inl e)
      | Inr ((s1, r, done), w6) \<Rightarrow>
     (case check_signal c w6 of \<comment> \<open>\<^verbatim>\<open>rollout.append((s, a, r))\<close>\<close>
        Inl e \<Rightarrow> (rollout, dones, Inl e)
      | Inr w7 \<Rightarrow>
     (case check_signal c w7 of \<comment> \<open>\<^verbatim>\<open>s = s1\<close>\<close>
        Inl e \<Rightarrow> (rollout @ [(s, a, r)], dones @ [done], Inl e)
      | Inr w8 \<Rightarrow>
     (case check_signal c w8 of \<comment> \<open>\<^verbatim>\<open>if done: break\<close>\<close>
        Inl e \<Rightarrow> (rollout @ [(s, a, r)], dones @ [done], Inl e)
      | Inr w9 \<Rightarrow>
          if done then (rollout @ [(s, a, r)], dones @ [done], Inr (s1, w9))
          else collect_rollout c js s1 w9 (rollout @ [(s, a, r)]) (dones @ [done])))))))))))"

text \<open>
  The call of \<^verbatim>\<open>compute_returns\<close> from the cell. The function is Python code, so the
  interpreter looks at the signals before each of its statements: the two before the
  loop, the assignment in each round of the loop, and the \<^verbatim>\<open>return\<close>. One round of the
  loop is \<open>returns_loop\<close> on the single value of \<open>t\<close>.
\<close>

fun returns_loop_call ::
  "('s, 'w) collaborators \<Rightarrow> real list \<Rightarrow> real \<Rightarrow> nat list \<Rightarrow> real list \<Rightarrow> 'w
     \<Rightarrow> py_exception + real list \<times> 'w" where
  "returns_loop_call c rewards \<gamma> [] returns w = Inr (returns, w)"
| "returns_loop_call c rewards \<gamma> (t # ts) returns w =
     (case check_signal c w of \<comment> \<open>\<^verbatim>\<open>returns[t] = ...\<close>\<close>
        Inl e \<Rightarrow> Inl e
      | Inr w1 \<Rightarrow>
     (case returns_loop rewards \<gamma> [t] returns of
        Inl e \<Rightarrow> Inl e
      | Inr returns' \<Rightarrow> returns_loop_call c rewards \<gamma> ts returns' w1))"

definition compute_returns_call ::
  "('s, 'w) collaborators \<Rightarrow> real list \<Rightarrow> real \<Rightarrow> 'w \<Rightarrow> py_exception + real list \<times> 'w" where
  "compute_returns_call c rewards \<gamma> w =
     (case check_signal c w of \<comment> \<open>\<^verbatim>\<open>returns = np.zeros(len(rewards))\<close>\<close>
        Inl e \<Rightarrow> Inl e
      | Inr w1 \<Rightarrow>
     (case check_signal c w1 of \<comment> \<open>\<^verbatim>\<open>returns[-1] = rewards[-1]\<close>\<close>
        Inl e \<Rightarrow> Inl e
      | Inr w2 \<Rightarrow>
     (case getitem rewards (- 1) of
        Inl e \<Rightarrow> Inl e
      | Inr r \<Rightarrow>
     (case setitem (np_zeros (length rewards)) (- 1) r of
        Inl e \<Rightarrow> Inl e
      | Inr returns \<Rightarrow>
     (case returns_loop_call c rewards \<gamma>
             (rev [0 ..< length rewards - 1]) returns w2 of
        Inl e \<Rightarrow> Inl e
      | Inr (returns', w3) \<Rightarrow>
     (case check_signal c w3 of \<comment> \<open>\<^verbatim>\<open>return returns\<close>\<close>
        Inl e \<Rightarrow> Inl e
      | Inr w4 \<Rightarrow> Inr (returns', w4)))))))"

text \<open>
  The call of \<^verbatim>\<open>policy.loss\<close> from the cell: its one statement is the \<^verbatim>\<open>return\<close>.
\<close>

definition loss_call ::
  "('s, 'w) collaborators \<Rightarrow> real list \<Rightarrow> real list \<Rightarrow> 'w \<Rightarrow> py_exception + real \<times> 'w" where
  "loss_call c action_probabilities returns w =
     (case check_signal c w of \<comment> \<open>\<^verbatim>\<open>return -torch.mean(...)\<close>\<close>
        Inl e \<Rightarrow> Inl e
      | Inr w1 \<Rightarrow>
     (case loss action_probabilities returns of
        Inl e \<Rightarrow> Inl e
      | Inr l \<Rightarrow> Inr (l, w1)))"

text \<open>
  The policy on a batch of states, \<^verbatim>\<open>policy(torch.from_numpy(states).float())\<close>.
\<close>

fun policy_batch ::
  "('s, 'w) collaborators \<Rightarrow> 's list \<Rightarrow> 'w \<Rightarrow> py_exception + real list list" where
  "policy_batch c [] w = Inr []"
| "policy_batch c (s # ss) w =
     (case policy c s w of
        Inl e \<Rightarrow> Inl e
      | Inr row \<Rightarrow>
          (case policy_batch c ss w of
             Inl e \<Rightarrow> Inl e
           | Inr rows \<Rightarrow> Inr (row # rows)))"

text \<open>
  One training episode, up to the two values the cell appends to its lists: it returns
  the rewards and the loss.
  \<^verbatim>\<open>
  rollout = []
  s = env.reset()
  for j in range(rollout_limit): ...
  # prepare batch
  rollout = np.array(rollout)
  states = np.vstack(rollout[:,0])
  actions = np.vstack(rollout[:,1])
  rewards = np.array(rollout[:,2], dtype=float)
  returns = compute_returns(rewards, discount_factor)
  # policy gradient update
  policy.optimizer.zero_grad()
  a_probs = policy(torch.from_numpy(states).float()).gather(1, torch.from_numpy(actions)).view(-1)
  loss = policy.loss(a_probs, torch.from_numpy(returns).float())
  loss.backward()
  policy.optimizer.step()
  \<close>
  An empty rollout (only with a step limit of \<open>0\<close>) makes \<^verbatim>\<open>np.array(rollout)\<close>
  one-dimensional, and \<^verbatim>\<open>rollout[:,0]\<close> raises \<^verbatim>\<open>IndexError\<close>.
\<close>

definition train_episode ::
  "('s, 'w) collaborators \<Rightarrow> config \<Rightarrow> 'w \<Rightarrow> py_exception + real list \<times> real \<times> 'w" where
  "train_episode c cfg w =
     (case check_signal c w of \<comment> \<open>\<^verbatim>\<open>rollout = []\<close>\<close>
        Inl e \<Rightarrow> Inl e
      | Inr w1 \<Rightarrow>
     (case check_signal c w1 of \<comment> \<open>\<^verbatim>\<open>s = env.reset()\<close>\<close>
        Inl e \<Rightarrow> Inl e
      | Inr w2 \<Rightarrow>
     (case env_reset c w2 of
        Inl e \<Rightarrow> Inl e
      | Inr (s, w3) \<Rightarrow>
     (case collect_rollout c [0 ..< rollout_limit cfg] s w3 [] [] of
        (rollout, dones, Inl e) \<Rightarrow> Inl e
      | (rollout, dones, Inr (s', w4)) \<Rightarrow>
     (case check_signal c w4 of \<comment> \<open>\<^verbatim>\<open>rollout = np.array(rollout)\<close>\<close>
        Inl e \<Rightarrow> Inl e
      | Inr w5 \<Rightarrow>
     (case check_signal c w5 of \<comment> \<open>\<^verbatim>\<open>states = np.vstack(rollout[:,0])\<close>\<close>
        Inl e \<Rightarrow> Inl e
      | Inr w6 \<Rightarrow>
     if rollout = [] then Inl IndexError
     else
     (case check_signal c w6 of \<comment> \<open>\<^verbatim>\<open>actions = np.vstack(rollout[:,1])\<close>\<close>
        Inl e \<Rightarrow> Inl e
      | Inr w7 \<Rightarrow>
     (case check_signal c w7 of \<comment> \<open>\<^verbatim>\<open>rewards = np.array(rollout[:,2], dtype=float)\<close>\<close>
        Inl e \<Rightarrow> Inl e
      | Inr w8 \<Rightarrow>
       let states = map fst rollout;
           actions = map (\<lambda>x. fst (snd x)) rollout;
           rewards = map (\<lambda>x. snd (snd x)) rollout
       in
     (case check_signal c w8 of \<comment> \<open>\<^verbatim>\<open>returns = compute_returns(rewards, discount_factor)\<close>\<close>
        Inl e \<Rightarrow> Inl e
      | Inr w9 \<Rightarrow>
     (case compute_returns_call c rewards (discount_factor cfg) w9 of
        Inl e \<Rightarrow> Inl e
      | Inr (returns, w10) \<Rightarrow>
     (case check_signal c w10 of \<comment> \<open>\<^verbatim>\<open>policy.optimizer.zero_grad()\<close>\<close>
        Inl e \<Rightarrow> Inl e
      | Inr w11 \<Rightarrow>
     (case zero_grad c w11 of
        Inl e \<Rightarrow> Inl e
      | Inr w12 \<Rightarrow>
     (case check_signal c w12 of \<comment> \<open>\<^verbatim>\<open>a_probs = policy(...).gather(1, ...).view(-1)\<close>\<close>
        Inl e \<Rightarrow> Inl e
      | Inr w13 \<Rightarrow>
     (case policy_batch c states w13 of
        Inl e \<Rightarrow> Inl e
      | Inr probs \<Rightarrow>
     (case gather1 probs actions of
        Inl e \<Rightarrow> Inl e
      | Inr a_probs \<Rightarrow>
     (case check_signal c w13 of \<comment> \<open>\<^verbatim>\<open>loss = policy.loss(a_probs, ...)\<close>\<close>
        Inl e \<Rightarrow> Inl e
      | Inr w14 \<Rightarrow>
     (case loss_call c a_probs returns w14 of
        Inl e \<Rightarrow> Inl e
      | Inr (l, w15) \<Rightarrow>
     (case check_signal c w15 of \<comment> \<open>\<^verbatim>\<open>loss.backward()\<close>\<close>
        Inl e \<Rightarrow> Inl e
      | Inr w16 \<Rightarrow>
     (case backward c states actions returns w16 of
        Inl e \<Rightarrow> Inl e
      | Inr w17 \<Rightarrow>
     (case check_signal c w17 of \<comment> \<open>\<^verbatim>\<open>policy.optimizer.step()\<close>\<close>
        Inl e \<Rightarrow> Inl e
      | Inr w18 \<Rightarrow>
     (case optimizer_step c w18 of
        Inl e \<Rightarrow> Inl e
      | Inr w19 \<Rightarrow> Inr (rewards, l, w19))))))))))))))))))))))"

text \<open>
  The validation phase: ten episodes with the action of greatest probability.
  \<^verbatim>\<open>
  validation_rewards = []
  for _ in range(10):
      s = env.reset()
      reward = 0
      for _ in range(rollout_limit):
          with torch.no_grad():
              a_prob = policy(torch.from_numpy(np.atleast_2d(s)).float())
              a = a_prob.argmax().item()
          s, r, done, _ = env.step(a)
          reward += r
          if done: break
      validation_rewards.append(reward)
  \<close>
\<close>

fun validation_rollout ::
  "('s, 'w) collaborators \<Rightarrow> nat list \<Rightarrow> 's \<Rightarrow> 'w \<Rightarrow> real \<Rightarrow> py_exception + real \<times> 'w" where
  "validation_rollout c [] s w reward = Inr (reward, w)"
| "validation_rollout c (j # js) s w reward =
     (case check_signal c w of \<comment> \<open>\<^verbatim>\<open>with torch.no_grad():\<close>\<close>
        Inl e \<Rightarrow> Inl e
      | Inr w1 \<Rightarrow>
     (case check_signal c w1 of \<comment> \<open>\<^verbatim>\<open>a_prob = policy(...)\<close>\<close>
        Inl e \<Rightarrow> Inl e
      | Inr w2 \<Rightarrow>
     (case policy c s w2 of
        Inl e \<Rightarrow> Inl e
      | Inr a_prob \<Rightarrow>
     (case check_signal c w2 of \<comment> \<open>\<^verbatim>\<open>a = a_prob.argmax().item()\<close>\<close>
        Inl e \<Rightarrow> Inl e
      | Inr w3 \<Rightarrow>
     (case argmax c a_prob of
        Inl e \<Rightarrow> Inl e
      | Inr a \<Rightarrow>
     (case check_signal c w3 of \<comment> \<open>\<^verbatim>\<open>s, r, done, _ = env.step(a)\<close>\<close>
        Inl e \<Rightarrow> Inl e
      | Inr w4 \<Rightarrow>
     (case env_step c a w4 of
        Inl e \<Rightarrow> Inl e
      | Inr ((s1, r, done), w5) \<Rightarrow>
     (case check_signal c w5 of \<comment> \<open>\<^verbatim>\<open>reward += r\<close>\<close>
        Inl e \<Rightarrow> Inl e
      | Inr w6 \<Rightarrow>
     (case check_signal c w6 of \<comment> \<open>\<^verbatim>\<open>if done: break\<close>\<close>
        Inl e \<Rightarrow> Inl e
      | Inr w7 \<Rightarrow>
          if done then Inr (reward + r, w7)
          else validation_rollout c js s1 w7 (reward + r))))))))))"

fun validation ::
  "('s, 'w) collaborators \<Rightarrow> config \<Rightarrow> nat list \<Rightarrow> 'w \<Rightarrow> real list
     \<Rightarrow> py_exception + real list \<times> 'w" where
  "validation c cfg [] w validation_rewards = Inr (validation_rewards, w)"
| "validation c cfg (k # ks) w validation_rewards =
     (case check_signal c w of \<comment> \<open>\<^verbatim>\<open>s = env.reset()\<close>\<close>
        Inl e \<Rightarrow> Inl e
      | Inr w1 \<Rightarrow>
     (case env_reset c w1 of
        Inl e \<Rightarrow> Inl e
      | Inr (s, w2) \<Rightarrow>
     (case check_signal c w2 of \<comment> \<open>\<^verbatim>\<open>reward = 0\<close>\<close>
        Inl e \<Rightarrow> Inl e
      | Inr w3 \<Rightarrow>
     (case validation_rollout c [0 ..< rollout_limit cfg] s w3 0 of
        Inl e \<Rightarrow> Inl e
      | Inr (reward, w4) \<Rightarrow>
     (case check_signal c w4 of \<comment> \<open>\<^verbatim>\<open>validation_rewards.append(reward)\<close>\<close>
        Inl e \<Rightarrow> Inl e
      | Inr w5 \<Rightarrow> validation c cfg ks w5 (validation_rewards @ [reward]))))))"

definition validation_phase ::
  "('s, 'w) collaborators \<Rightarrow> config \<Rightarrow> 'w \<Rightarrow> py_exception + real list \<times> 'w" where
  "validation_phase c cfg w =
     (case check_signal c w of \<comment> \<open>\<^verbatim>\<open>validation_rewards = []\<close>\<close>
        Inl e \<Rightarrow> Inl e
      | Inr w1 \<Rightarrow> validation c cfg [0 ..< 10] w1 [])"

text \<open>
  \<^verbatim>\<open>np.mean\<close> of a non-empty list, and the slice \<^verbatim>\<open>xs[-k:]\<close> (the last \<open>k\<close> entries, all
  of them when there are fewer; the whole list when \<open>k = 0\<close>).
\<close>

definition np_mean :: "real list \<Rightarrow> real" where
  "np_mean xs = sum_list xs / real (length xs)"

definition last_entries :: "nat \<Rightarrow> 'a list \<Rightarrow> 'a list" where
  "last_entries k xs = (if k = 0 then xs else drop (length xs - k) xs)"

text \<open>
  One round of the loop over the episodes. The lists of the cell are Python lists,
  appended to in place: what has been appended is there whatever happens later. So a
  round returns the metrics in every case, and beside them the exception that ended it or
  the state of the collaborators it ends on.
  \<^verbatim>\<open>
  for i in range(num_episodes):
      ...
      # bookkeeping
      training_rewards.append(sum(rewards))
      losses.append(loss.item())
      # print
      if (i+1) % val_freq == 0:
          ...
          print('{:4d}. mean training reward: {:6.2f}, mean validation reward: {:6.2f}, mean loss: {:7.4f}'.format(i+1, np.mean(training_rewards[-val_freq:]), np.mean(validation_rewards), np.mean(losses[-val_freq:])))
  \<close>
  With \<^verbatim>\<open>val_freq = 0\<close> the test \<^verbatim>\<open>(i+1) % val_freq\<close> raises \<^verbatim>\<open>ZeroDivisionError\<close>.
\<close>

definition iteration ::
  "('s, 'w) collaborators \<Rightarrow> config \<Rightarrow> nat \<Rightarrow> metrics \<Rightarrow> 'w \<Rightarrow> metrics \<times> (py_exception + 'w)" where
  "iteration c cfg i m w =
     (case train_episode c cfg w of
        Inl e \<Rightarrow> (m, Inl e)
      | Inr (rewards, l, w1) \<Rightarrow>
     (case check_signal c w1 of \<comment> \<open>\<^verbatim>\<open>training_rewards.append(sum(rewards))\<close>\<close>
        Inl e \<Rightarrow> (m, Inl e)
      | Inr w2 \<Rightarrow>
       let m1 = m\<lparr>training_rewards := training_rewards m @ [py_sum rewards]\<rparr> in
     (case check_signal c w2 of \<comment> \<open>\<^verbatim>\<open>losses.append(loss.item())\<close>\<close>
        Inl e \<Rightarrow> (m1, Inl e)
      | Inr w3 \<Rightarrow>
       let m2 = m1\<lparr>losses := losses m1 @ [l]\<rparr> in
     (case check_signal c w3 of \<comment> \<open>\<^verbatim>\<open>if (i+1) % val_freq == 0:\<close>\<close>
        Inl e \<Rightarrow> (m2, Inl e)
      | Inr w4 \<Rightarrow>
     if val_freq cfg = 0 then (m2, Inl ZeroDivisionError)
     else if (i + 1) mod val_freq cfg = 0 then
     (case validation_phase c cfg w4 of
        Inl e \<Rightarrow> (m2, Inl e)
      | Inr (validation_rewards, w5) \<Rightarrow>
     (case check_signal c w5 of \<comment> \<open>\<^verbatim>\<open>print(...)\<close>\<close>
        Inl e \<Rightarrow> (m2, Inl e)
      | Inr w6 \<Rightarrow>
          (m2\<lparr>printed := printed m2 @
             [Progress (i + 1)
                (np_mean (last_entries (val_freq cfg) (training_rewards m2)))
                (np_mean validation_rewards)
                (np_mean (last_entries (val_freq cfg) (losses m2)))]\<rparr>,
           Inr w6)))
     else (m2, Inr w4)))))"

text \<open>
  The loop over the episodes: it runs the rounds in order and ends at the first one that
  raises.
\<close>

fun training_loop ::
  "('s, 'w) collaborators \<Rightarrow> config \<Rightarrow> nat list \<Rightarrow> metrics \<Rightarrow> 'w
     \<Rightarrow> metrics \<times> (py_exception + 'w)" where
  "training_loop c cfg [] m w = (m, Inr w)"
| "training_loop c cfg (i # rest) m w =
     (case iteration c cfg i m w of
        (m', Inl e) \<Rightarrow> (m', Inl e)
      | (m', Inr w') \<Rightarrow> training_loop c cfg rest m' w')"

text \<open>
  The cell.
  \<^verbatim>\<open>
  try:
      training_rewards, losses = [], []
      print('start training')
      for i in range(num_episodes): ...
      print('done')
  except KeyboardInterrupt:
      print('interrupt')
  \<close>
  The result is the metrics as the cell leaves them, and the exception that leaves the
  cell, if one does. \<open>except_KeyboardInterrupt m e\<close> is what the \<^verbatim>\<open>except\<close> clause makes
  of the exception \<open>e\<close> raised in the \<^verbatim>\<open>try\<close> block with metrics \<open>m\<close>. An interruption
  before the first assignment finds the two lists as they were before the cell ran; the
  model shows them empty, nothing having been collected. A second interruption, while
  the handler prints, is not modelled.
\<close>

definition except_KeyboardInterrupt ::
  "metrics \<Rightarrow> py_exception \<Rightarrow> metrics \<times> py_exception option" where
  "except_KeyboardInterrupt m e =
     (if e = KeyboardInterrupt then (m\<lparr>printed := printed m @ [Interrupt]\<rparr>, None)
      else (m, Some e))"

definition initial_metrics :: metrics where
  "initial_metrics = \<lparr>training_rewards = [], losses = [], printed = [Start_training]\<rparr>"

definition training_cell ::
  "('s, 'w) collaborators \<Rightarrow> config \<Rightarrow> 'w \<Rightarrow> metrics \<times> py_exception option" where
  "training_cell c cfg w =
     (case check_signal c w of \<comment> \<open>\<^verbatim>\<open>training_rewards, losses = [], []\<close>\<close>
        Inl e \<Rightarrow>
          except_KeyboardInterrupt \<lparr>training_rewards = [], losses = [], printed = []\<rparr> e
      | Inr w1 \<Rightarrow>
     (case check_signal c w1 of \<comment> \<open>\<^verbatim>\<open>print('start training')\<close>\<close>
        Inl e \<Rightarrow>
          except_KeyboardInterrupt \<lparr>training_rewards = [], losses = [], printed = []\<rparr> e
      | Inr w2 \<Rightarrow>
     (case training_loop c cfg [0 ..< num_episodes cfg] initial_metrics w2 of
        (m, Inl e) \<Rightarrow> except_KeyboardInterrupt m e
      | (m, Inr w3) \<Rightarrow>
     (case check_signal c w3 of \<comment> \<open>\<^verbatim>\<open>print('done')\<close>\<close>
        Inl e \<Rightarrow> except_KeyboardInterrupt m e
      | Inr w4 \<Rightarrow> (m\<lparr>printed := printed m @ [Done]\<rparr>, None)))))"

subsection \<open>Collaborators for concrete runs\<close>

text \<open>
  A small environment and policy, on which the functions above can be run. The state of
  the collaborators is \<open>(n, x, t)\<close>: the number \<open>n\<close> of calls of \<^verbatim>\<open>env.reset()\<close> so far,
  the environment's counter \<open>x\<close>, and the number \<open>t\<close> of looks at the signals so far. A
  reset sets the counter to \<open>2\<close>, a step lowers it by one and pays reward \<open>1\<close>, and the
  episode is done when it reaches \<open>0\<close>. The policy gives probability one half to each of
  two actions, and the action sampled is the parity of the counter. The \<open>k\<close>-th call of
  \<^verbatim>\<open>env.reset()\<close> (counting from \<open>0\<close>) raises the exception \<open>e\<close>, and the interruption
  arrives at the look number \<open>j\<close> when \<open>arrival = Some j\<close>, never when \<open>arrival = None\<close>. \<open>small\<close> is
  a short configuration: three episodes of at most five steps, validated after every
  second one.
\<close>

definition toy ::
  "py_exception \<Rightarrow> nat \<Rightarrow> nat option \<Rightarrow> (nat, nat \<times> nat \<times> nat) collaborators" where
  "toy e k arrival =
     \<lparr>env_reset = (\<lambda>(n, x, t). if n = k then Inl e else Inr (2, (n + 1, 2, t))),
      env_step = (\<lambda>a (n, x, t). Inr ((x - 1, 1, x - 1 = 0), (n, x - 1, t))),
      policy = (\<lambda>s w. Inr [1 / 2, 1 / 2]),
      multinomial = (\<lambda>a_prob (n, x, t). Inr (x mod 2, (n, x, t))),
      argmax = (\<lambda>a_prob. Inr 0),
      zero_grad = Inr,
      backward = (\<lambda>states actions returns. Inr),
      optimizer_step = Inr,
      signal = (\<lambda>(n, x, t). if arrival = Some t then None else Some (n, x, t + 1))\<rparr>"

definition small :: config where
  "small = \<lparr>num_episodes = 3, rollout_limit = 5, discount_factor = 1,
      learning_rate = 1 / 1000, val_freq = 2\<rparr>"

section \<open>Properties of \<^verbatim>\<open>compute_returns\<close>\<close>

lemma norm_index_nat: "t < n \<Longrightarrow> norm_index n (int t) = Inr t"
  by (simp add: norm_index_def)

lemma norm_index_last: "0 < n \<Longrightarrow> norm_index n (- 1) = Inr (n - 1)"
  by (auto simp: norm_index_def nat_eq_iff)

lemma getitem_nat: "t < length xs \<Longrightarrow> getitem xs (int t) = Inr (xs ! t)"
  by (simp add: getitem_def norm_index_nat)

lemma getitem_Suc: "Suc t < length xs \<Longrightarrow> getitem xs (int t + 1) = Inr (xs ! Suc t)"
  using getitem_nat [of "Suc t" xs] by (simp add: add.commute)

lemma setitem_nat: "t < length xs \<Longrightarrow> setitem xs (int t) v = Inr (xs[t := v])"
  by (simp add: setitem_def norm_index_nat)

text \<open>
  The loop invariant. Running the loop for \<open>t = m - 1, \<dots>, 0\<close> on an array as long as the
  rewards returns an array of that length, leaves the entries from \<open>m\<close> on as they were
  and establishes the recurrence below \<open>m\<close>.
\<close>

lemma returns_loop_inv:
  fixes rewards :: "'a::{zero,plus,times} list"
  assumes "length returns = length rewards" and "m < length rewards"
  shows "\<exists>G. returns_loop rewards \<gamma> (rev [0 ..< m]) returns = Inr G
           \<and> length G = length rewards
           \<and> (\<forall>i. m \<le> i \<longrightarrow> G ! i = returns ! i)
           \<and> (\<forall>t < m. G ! t = rewards ! t + \<gamma> * G ! Suc t)"
  using assms
proof (induction m arbitrary: returns)
  case 0
  then show ?case by simp
next
  case (Suc m)
  let ?v = "rewards ! m + \<gamma> * returns ! Suc m"
  let ?a = "returns[m := ?v]"
  have step: "returns_loop rewards \<gamma> (rev [0 ..< Suc m]) returns
                = returns_loop rewards \<gamma> (rev [0 ..< m]) ?a"
    using Suc.prems by (simp add: getitem_nat getitem_Suc setitem_nat)
  from Suc.prems have "length ?a = length rewards" and "m < length rewards"
    by simp_all
  from Suc.IH [OF this] obtain G where
    G: "returns_loop rewards \<gamma> (rev [0 ..< m]) ?a = Inr G"
    and len: "length G = length rewards"
    and keep: "\<forall>i. m \<le> i \<longrightarrow> G ! i = ?a ! i"
    and rec: "\<forall>t < m. G ! t = rewards ! t + \<gamma> * G ! Suc t"
    by blast
  have at_m: "G ! m = ?v"
    using keep Suc.prems by simp
  have above: "\<forall>i. Suc m \<le> i \<longrightarrow> G ! i = returns ! i"
    using keep by simp
  have "G ! m = rewards ! m + \<gamma> * G ! Suc m"
    using at_m above by simp
  with rec have "\<forall>t < Suc m. G ! t = rewards ! t + \<gamma> * G ! Suc t"
    by (simp add: less_Suc_eq)
  with step G len above show ?case
    by simp
qed

text \<open>
  What the function returns on a non-empty sequence: nothing raises, and the result has
  the length of the rewards, the last reward as its last entry, and the recurrence.
\<close>

lemma compute_returns_nonempty:
  fixes rewards :: "'a::{zero,plus,times} list"
  assumes "rewards \<noteq> []"
  shows "\<exists>G. compute_returns rewards \<gamma> = Inr G
           \<and> length G = length rewards
           \<and> G ! (length rewards - 1) = rewards ! (length rewards - 1)
           \<and> (\<forall>t. Suc t < length rewards \<longrightarrow>
                 G ! t = rewards ! t + \<gamma> * G ! Suc t)"
proof -
  let ?n = "length rewards"
  let ?a = "(np_zeros ?n)[?n - 1 := rewards ! (?n - 1)] :: 'a list"
  from assms have pos: "0 < ?n" by simp
  have start: "compute_returns rewards \<gamma>
                 = returns_loop rewards \<gamma> (rev [0 ..< ?n - 1]) ?a"
    using pos
    by (simp add: compute_returns_def getitem_def setitem_def norm_index_last np_zeros_def)
  have "length ?a = ?n" and "?n - 1 < ?n"
    using pos by (simp_all add: np_zeros_def)
  from returns_loop_inv [OF this, of \<gamma>] obtain G where
    G: "returns_loop rewards \<gamma> (rev [0 ..< ?n - 1]) ?a = Inr G"
    and len: "length G = ?n"
    and keep: "\<forall>i. ?n - 1 \<le> i \<longrightarrow> G ! i = ?a ! i"
    and rec: "\<forall>t < ?n - 1. G ! t = rewards ! t + \<gamma> * G ! Suc t"
    by blast
  have "G ! (?n - 1) = rewards ! (?n - 1)"
    using keep pos by (simp add: np_zeros_def)
  moreover have "\<forall>t. Suc t < ?n \<longrightarrow> G ! t = rewards ! t + \<gamma> * G ! Suc t"
    using rec by (simp add: less_diff_conv)
  ultimately show ?thesis
    using start G len by simp
qed

text \<open>
  With discount factor \<open>0\<close> the recurrence copies the rewards.
\<close>

lemma recurrence_zero_copies:
  fixes rewards :: "'a::semiring_0 list"
  assumes len: "length G = length rewards"
    and last: "G ! (length rewards - 1) = rewards ! (length rewards - 1)"
    and rec: "\<forall>t. Suc t < length rewards \<longrightarrow> G ! t = rewards ! t + 0 * G ! Suc t"
  shows "G = rewards"
proof (rule nth_equalityI)
  show "length G = length rewards" by (rule len)
next
  fix t
  assume "t < length G"
  with len have t: "t < length rewards" by simp
  show "G ! t = rewards ! t"
  proof (cases "Suc t < length rewards")
    case True
    with rec show ?thesis by simp
  next
    case False
    with t have "t = length rewards - 1" by simp
    with last show ?thesis by simp
  qed
qed

text \<open>
  Claim C1. For every reward sequence of length \<open>N \<ge> 1\<close> and every discount factor
  (in \<open>[0, 1]\<close> or not: no bound on it is needed), \<^verbatim>\<open>compute_returns\<close> returns a sequence
  \<open>G\<close> of length \<open>N\<close> with \<open>G[N-1] = R[N-1]\<close> and \<open>G[t] = R[t] + \<gamma> * G[t+1]\<close> for every
  \<open>t < N - 1\<close>.
\<close>

theorem compute_returns_recurrence:
  fixes rewards :: "'a::{zero,plus,times} list"
  assumes "1 \<le> length rewards"
  shows "\<exists>G. compute_returns rewards \<gamma> = Inr G
           \<and> length G = length rewards
           \<and> G ! (length rewards - 1) = rewards ! (length rewards - 1)
           \<and> (\<forall>t. t < length rewards - 1 \<longrightarrow>
                 G ! t = rewards ! t + \<gamma> * G ! (t + 1))"
proof -
  from assms have "rewards \<noteq> []" by auto
  from compute_returns_nonempty [OF this, of \<gamma>] show ?thesis
    by (auto simp: less_diff_conv)
qed

theorem compute_returns_recurrence_witness:
  "1 \<le> length [1, 2, 3 :: real]
   \<and> (\<exists>G. compute_returns [1, 2, 3 :: real] (1 / 2) = Inr G
          \<and> length G = 3
          \<and> G ! 2 = 3
          \<and> G ! 1 = 2 + 1 / 2 * G ! 2
          \<and> G ! 0 = 1 + 1 / 2 * G ! 1)"
proof -
  have h: "1 \<le> length [1, 2, 3 :: real]" by simp
  from compute_returns_recurrence [OF h, of "1 / 2"] obtain G where
    G: "compute_returns [1, 2, 3 :: real] (1 / 2) = Inr G"
    and len: "length G = length [1, 2, 3 :: real]"
    and last: "G ! (length [1, 2, 3 :: real] - 1) = [1, 2, 3] ! (length [1, 2, 3 :: real] - 1)"
    and rec: "\<forall>t. t < length [1, 2, 3 :: real] - 1 \<longrightarrow>
                G ! t = [1, 2, 3] ! t + 1 / 2 * G ! (t + 1)"
    by blast
  from len have len': "length G = 3" by simp
  from last have last': "G ! 2 = 3" by (simp add: numeral_2_eq_2)
  from rec [rule_format, of 0] have "G ! 0 = 1 + 1 / 2 * G ! 1" by simp
  moreover from rec [rule_format, of 1] have "G ! 1 = 2 + 1 / 2 * G ! 2"
    by (simp add: numeral_2_eq_2)
  ultimately show ?thesis using h G len' last' by blast
qed

text \<open>
  Claim C2, as the specification states it: for \<open>R = [0, 1, 1, 1, 0, 1, 1, 0, 0, 0]\<close> and
  \<open>\<gamma> = 0.9\<close> the returns have \<open>G[8] = 0\<close>, \<open>G[7] = 0\<close>, \<open>G[6] = 1\<close>, \<open>G[5] = 1.9\<close> and
  \<open>G[0]\<close> about \<open>3.10\<close>. The first four values are right; \<open>G[0]\<close> is \<open>3.560931\<close>, which is
  further than \<open>0.46\<close> from \<open>3.10\<close>.
\<close>

theorem compute_returns_example_discounted_counterexample:
  "projr (compute_returns [0, 1, 1, 1, 0, 1, 1, 0, 0, 0] (9 / 10 :: real)) ! 0
     = 3560931 / 1000000
   \<and> \<not> \<bar>projr (compute_returns [0, 1, 1, 1, 0, 1, 1, 0, 0, 0] (9 / 10 :: real)) ! 0
          - 310 / 100\<bar> \<le> 46 / 100"
  by (simp add: compute_returns_def getitem_def setitem_def norm_index_def np_zeros_def)

text \<open>
  Claim C2, amended: for \<open>R = [0, 1, 1, 1, 0, 1, 1, 0, 0, 0]\<close> and \<open>\<gamma> = 0.9\<close> the returns
  are \<open>[3.560931, 3.95659, 3.2851, 2.539, 1.71, 1.9, 1, 0, 0, 0]\<close>: \<open>G[8] = 0\<close>,
  \<open>G[7] = 0\<close>, \<open>G[6] = 1\<close>, \<open>G[5] = 1.9\<close>, and \<open>G[0] = 3.560931\<close>, about \<open>3.56\<close>.
\<close>

theorem compute_returns_example_discounted:
  "compute_returns [0, 1, 1, 1, 0, 1, 1, 0, 0, 0] (9 / 10 :: real)
     = Inr [3560931 / 1000000, 395659 / 100000, 32851 / 10000, 2539 / 1000, 171 / 100,
            19 / 10, 1, 0, 0, 0]"
  by (simp add: compute_returns_def getitem_def setitem_def norm_index_def np_zeros_def)

text \<open>
  Claim C7. For every non-empty reward sequence, \<^verbatim>\<open>compute_returns\<close> with discount factor
  \<open>0\<close> returns the rewards themselves, entry by entry.
\<close>

theorem compute_returns_zero_discount:
  fixes rewards :: "'a::semiring_0 list"
  assumes "rewards \<noteq> []"
  shows "compute_returns rewards 0 = Inr rewards"
proof -
  from compute_returns_nonempty [OF assms, of 0] obtain G where
    G: "compute_returns rewards 0 = Inr G"
    and len: "length G = length rewards"
    and last: "G ! (length rewards - 1) = rewards ! (length rewards - 1)"
    and rec: "\<forall>t. Suc t < length rewards \<longrightarrow> G ! t = rewards ! t + 0 * G ! Suc t"
    by blast
  from recurrence_zero_copies [OF len last rec] G show ?thesis by simp
qed

theorem compute_returns_zero_discount_witness:
  "[2, 3, 4 :: real] \<noteq> [] \<and> compute_returns [2, 3, 4 :: real] 0 = Inr [2, 3, 4]"
proof -
  have h: "[2, 3, 4 :: real] \<noteq> []" by simp
  from compute_returns_zero_discount [OF h] h show ?thesis by simp
qed

text \<open>
  Claim C8. For \<open>R = [0, 1, 1, 1, 0, 1, 1, 0, 0, 0]\<close> and \<open>\<gamma> = 1\<close> the returns are exactly
  \<open>[5, 5, 4, 3, 2, 2, 1, 0, 0, 0]\<close>, and \<open>G[0]\<close> is the total reward \<open>5\<close>.
\<close>

theorem compute_returns_example_undiscounted:
  "compute_returns [0, 1, 1, 1, 0, 1, 1, 0, 0, 0] (1 :: real)
     = Inr [5, 5, 4, 3, 2, 2, 1, 0, 0, 0]
   \<and> projr (compute_returns [0, 1, 1, 1, 0, 1, 1, 0, 0, 0] (1 :: real)) ! 0 = 5
   \<and> sum_list [0, 1, 1, 1, 0, 1, 1, 0, 0, 0 :: real] = 5"
  by (simp add: compute_returns_def getitem_def setitem_def norm_index_def np_zeros_def)

text \<open>
  Claim C10. On the empty reward sequence the function raises \<^verbatim>\<open>IndexError\<close> (at
  \<^verbatim>\<open>returns[-1] = rewards[-1]\<close>, whose right-hand side is evaluated first); it does not
  return, and in particular does not return an empty array.
\<close>

theorem compute_returns_empty_raises:
  "compute_returns [] \<gamma> = Inl IndexError
   \<and> compute_returns [] \<gamma> \<noteq> Inr []"
  by (simp add: compute_returns_def getitem_def norm_index_def)

section \<open>Properties of \<^verbatim>\<open>compute_returns\<close> on a store\<close>

text \<open>
  The loop on the store does what the loop on lists does: it changes the array at the
  address of \<^verbatim>\<open>returns\<close> and nothing else.
\<close>

lemma returns_loop_store_sim:
  fixes h :: "'a::{zero,plus,times} store"
  assumes "p < length h" and "q < length h" and "p \<noteq> q"
  shows "\<exists>arr. fst (returns_loop_store p q \<gamma> ts h) = h[q := arr]
           \<and> (case returns_loop (h ! p) \<gamma> ts (h ! q) of
                 Inl e \<Rightarrow> snd (returns_loop_store p q \<gamma> ts h) = Inl e
               | Inr G \<Rightarrow> snd (returns_loop_store p q \<gamma> ts h) = Inr q \<and> arr = G)"
  using assms
proof (induction ts arbitrary: h)
  case Nil
  have "h = h[q := h ! q]" by simp
  then show ?case by (intro exI [of _ "h ! q"]) simp
next
  case (Cons t ts)
  have same: "h = h[q := h ! q]" by simp
  show ?case
  proof (cases "getitem (h ! p) (int t)")
    case (Inl e)
    with same show ?thesis
      by (intro exI [of _ "h ! q"]) (simp add: store_getitem_def)
  next
    case r: (Inr r)
    show ?thesis
    proof (cases "getitem (h ! q) (int t + 1)")
      case (Inl e)
      with r same show ?thesis
        by (intro exI [of _ "h ! q"]) (simp add: store_getitem_def)
    next
      case g: (Inr g)
      show ?thesis
      proof (cases "setitem (h ! q) (int t) (r + \<gamma> * g)")
        case (Inl e)
        with r g same show ?thesis
          by (intro exI [of _ "h ! q"]) (simp add: store_getitem_def store_setitem_def)
      next
        case (Inr arr')
        let ?h' = "h[q := arr']"
        from Cons.prems have "p < length ?h'" and "q < length ?h'" and "p \<noteq> q"
          by simp_all
        from Cons.IH [OF this] obtain arr where
          a: "fst (returns_loop_store p q \<gamma> ts ?h') = ?h'[q := arr]"
          and b: "case returns_loop (?h' ! p) \<gamma> ts (?h' ! q) of
                    Inl e \<Rightarrow> snd (returns_loop_store p q \<gamma> ts ?h') = Inl e
                  | Inr G \<Rightarrow> snd (returns_loop_store p q \<gamma> ts ?h') = Inr q \<and> arr = G"
          by blast
        from Cons.prems have hp: "?h' ! p = h ! p" and hq: "?h' ! q = arr'"
          by simp_all
        have step: "returns_loop_store p q \<gamma> (t # ts) h = returns_loop_store p q \<gamma> ts ?h'"
          using r g Inr by (simp add: store_getitem_def store_setitem_def)
        have step': "returns_loop (h ! p) \<gamma> (t # ts) (h ! q) = returns_loop (h ! p) \<gamma> ts arr'"
          using r g Inr by simp
        from a have "fst (returns_loop_store p q \<gamma> (t # ts) h) = h[q := arr]"
          by (simp only: step list_update_overwrite)
        moreover from b have "case returns_loop (h ! p) \<gamma> (t # ts) (h ! q) of
                    Inl e \<Rightarrow> snd (returns_loop_store p q \<gamma> (t # ts) h) = Inl e
                  | Inr G \<Rightarrow> snd (returns_loop_store p q \<gamma> (t # ts) h) = Inr q \<and> arr = G"
          by (simp only: step step' hp hq)
        ultimately show ?thesis by blast
      qed
    qed
  qed
qed

text \<open>
  A call allocates one array and leaves every array that was there as it was; what the
  caller sees of it is \<open>compute_returns\<close> of the contents of the reward array.
\<close>

lemma compute_returns_store_sim:
  fixes h :: "'a::{zero,plus,times} store"
  assumes "p < length h"
  shows "outcome (compute_returns_store p \<gamma> h) = compute_returns (h ! p) \<gamma>
         \<and> length (fst (compute_returns_store p \<gamma> h)) = Suc (length h)
         \<and> take (length h) (fst (compute_returns_store p \<gamma> h)) = h"
proof -
  let ?q = "length h"
  let ?z = "np_zeros (length (h ! p)) :: 'a list"
  let ?h1 = "h @ [?z]"
  from assms have h1p: "?h1 ! p = h ! p" by (simp add: nth_append)
  have h1q: "?h1 ! ?q = ?z" by simp
  show ?thesis
  proof (cases "getitem (h ! p) (- 1)")
    case (Inl e)
    with h1p show ?thesis
      by (simp add: compute_returns_store_def compute_returns_def alloc_def store_getitem_def
          outcome_def)
  next
    case r: (Inr r)
    show ?thesis
    proof (cases "setitem ?z (- 1) r")
      case (Inl e)
      with r h1p show ?thesis
        by (simp add: compute_returns_store_def compute_returns_def alloc_def store_getitem_def
            store_setitem_def outcome_def)
    next
      case (Inr arr)
      let ?h2 = "?h1[?q := arr]"
      let ?ts = "rev [0 ..< length (h ! p) - 1]"
      from assms have "p < length ?h2" and "?q < length ?h2" and "p \<noteq> ?q"
        by simp_all
      from returns_loop_store_sim [OF this, of \<gamma> ?ts] obtain res where
        a: "fst (returns_loop_store p ?q \<gamma> ?ts ?h2) = ?h2[?q := res]"
        and b: "case returns_loop (?h2 ! p) \<gamma> ?ts (?h2 ! ?q) of
                  Inl e \<Rightarrow> snd (returns_loop_store p ?q \<gamma> ?ts ?h2) = Inl e
                | Inr G \<Rightarrow> snd (returns_loop_store p ?q \<gamma> ?ts ?h2) = Inr ?q \<and> res = G"
        by blast
      from assms have h2p: "?h2 ! p = h ! p" and h2q: "?h2 ! ?q = arr"
        by (simp_all add: nth_append)
      have call: "compute_returns_store p \<gamma> h = returns_loop_store p ?q \<gamma> ?ts ?h2"
        using r Inr h1p assms
        by (simp add: compute_returns_store_def alloc_def store_getitem_def store_setitem_def
            nth_append)
      have pure: "compute_returns (h ! p) \<gamma> = returns_loop (h ! p) \<gamma> ?ts arr"
        using r Inr by (simp add: compute_returns_def)
      have shape: "?h2[?q := res] = h @ [res]"
        by simp
      from b have "outcome (compute_returns_store p \<gamma> h) = compute_returns (h ! p) \<gamma>"
        unfolding call pure h2p h2q outcome_def
        using a shape by (auto split: sum.splits)
      moreover from a shape have "fst (compute_returns_store p \<gamma> h) = h @ [res]"
        by (simp only: call)
      ultimately show ?thesis by simp
    qed
  qed
qed

text \<open>
  Claim C9. Two calls of \<^verbatim>\<open>compute_returns\<close> on identical inputs give identical
  outputs: whatever else the two stores hold, if the reward arrays have the same contents
  and the discount factor is the same, both calls raise the same exception or return
  arrays with the same contents. A call keeps nothing behind: every array that existed
  before it is unchanged, and calling again in the store the first call has left gives the
  same output.
\<close>

theorem compute_returns_deterministic:
  fixes h h' :: "'a::{zero,plus,times} store"
  assumes "rewards < length h" and "rewards' < length h'"
    and "h ! rewards = h' ! rewards'"
  shows "outcome (compute_returns_store rewards \<gamma> h)
           = outcome (compute_returns_store rewards' \<gamma> h')
         \<and> outcome (compute_returns_store rewards \<gamma> (fst (compute_returns_store rewards \<gamma> h)))
           = outcome (compute_returns_store rewards \<gamma> h)
         \<and> take (length h) (fst (compute_returns_store rewards \<gamma> h)) = h"
proof -
  let ?h1 = "fst (compute_returns_store rewards \<gamma> h)"
  from compute_returns_store_sim [OF assms(1), of \<gamma>]
  have o1: "outcome (compute_returns_store rewards \<gamma> h) = compute_returns (h ! rewards) \<gamma>"
    and l1: "length ?h1 = Suc (length h)"
    and t1: "take (length h) ?h1 = h"
    by simp_all
  from compute_returns_store_sim [OF assms(2), of \<gamma>]
  have o2: "outcome (compute_returns_store rewards' \<gamma> h') = compute_returns (h' ! rewards') \<gamma>"
    by simp
  from assms(1) l1 have in1: "rewards < length ?h1" by simp
  from assms(1) have "?h1 ! rewards = take (length h) ?h1 ! rewards"
    by simp
  with t1 have same: "?h1 ! rewards = h ! rewards" by simp
  from compute_returns_store_sim [OF in1, of \<gamma>]
  have o3: "outcome (compute_returns_store rewards \<gamma> ?h1) = compute_returns (?h1 ! rewards) \<gamma>"
    by simp
  from o1 o2 o3 same assms(3) t1 show ?thesis by simp
qed

theorem compute_returns_deterministic_witness:
  "(0::nat) < length [[1, 2, 3 :: real]]
   \<and> (1::nat) < length [[7], [1, 2, 3 :: real]]
   \<and> [[1, 2, 3 :: real]] ! 0 = [[7], [1, 2, 3]] ! 1
   \<and> outcome (compute_returns_store 0 (1 / 2) [[1, 2, 3 :: real]]) = Inr [11 / 4, 7 / 2, 3]
   \<and> outcome (compute_returns_store 1 (1 / 2) [[7], [1, 2, 3 :: real]]) = Inr [11 / 4, 7 / 2, 3]
   \<and> fst (compute_returns_store 0 (1 / 2) [[1, 2, 3 :: real]])
       = [[1, 2, 3], [11 / 4, 7 / 2, 3]]
   \<and> outcome (compute_returns_store 0 (1 / 2) [[1, 2, 3], [11 / 4, 7 / 2, 3 :: real]])
       = Inr [11 / 4, 7 / 2, 3]"
proof -
  have h: "(0::nat) < length [[1, 2, 3 :: real]]" "(1::nat) < length [[7], [1, 2, 3 :: real]]"
    "[[1, 2, 3 :: real]] ! 0 = [[7], [1, 2, 3]] ! 1"
    by simp_all
  have run: "compute_returns_store 0 (1 / 2) [[1, 2, 3 :: real]]
               = ([[1, 2, 3], [11 / 4, 7 / 2, 3]], Inr 1)"
    by (simp add: compute_returns_store_def alloc_def store_getitem_def store_setitem_def
        getitem_def setitem_def norm_index_def np_zeros_def)
  from compute_returns_deterministic [OF h, of "1 / 2"] h run show ?thesis
    by (simp add: outcome_def)
qed

section \<open>Properties of \<^verbatim>\<open>PolicyNet.loss\<close>\<close>

lemma gather1_nth:
  assumes "length actions = length rows"
    and "\<forall>t < length rows. actions ! t < length (rows ! t)"
  shows "gather1 rows actions = Inr (map2 (\<lambda>row a. row ! a) rows actions)"
  using assms
proof (induction rows actions rule: gather1.induct)
  case (1 rows)
  then show ?case by simp
next
  case (2 a as)
  then show ?case by simp
next
  case (3 row rows a as)
  from "3.prems"(2) have here: "a < length row"
    by auto
  from "3.prems"(2) have rest: "\<forall>t < length rows. as ! t < length (rows ! t)"
    by auto
  from "3.IH" [OF here] "3.prems"(1) rest
  have "gather1 rows as = Inr (map2 (\<lambda>row a. row ! a) rows as)"
    by simp
  with here show ?case by simp
qed

lemma sum_list_products:
  fixes x y :: "real list"
  assumes "length x = length y"
  shows "sum_list (map2 (*) x y) = (\<Sum>t < length x. x ! t * y ! t)"
proof -
  have "sum_list (map2 (*) x y) = (\<Sum>t = 0 ..< length (map2 (*) x y). map2 (*) x y ! t)"
    by (rule sum_list_sum_nth)
  also have "\<dots> = (\<Sum>t = 0 ..< length x. x ! t * y ! t)"
    using assms by (intro sum.cong) simp_all
  finally show ?thesis by (simp add: lessThan_atLeast0)
qed

lemma loss_formula:
  assumes "length a_probs = length returns"
  shows "loss a_probs returns
           = Inr (- ((\<Sum>t < length a_probs. ln (a_probs ! t) * returns ! t)
                       / real (length a_probs)))"
proof -
  have "sum_list (map2 (*) (map ln a_probs) returns)
          = (\<Sum>t < length (map ln a_probs). map ln a_probs ! t * returns ! t)"
    using assms by (intro sum_list_products) simp
  also have "\<dots> = (\<Sum>t < length a_probs. ln (a_probs ! t) * returns ! t)"
    by (intro sum.cong) simp_all
  finally show ?thesis
    using assms by (simp add: loss_def torch_mul_def torch_log_def torch_mean_def)
qed

text \<open>
  Claim C3. For every non-empty rollout (\<open>N > 0\<close> timesteps, the rows of probabilities
  the policy gives at its states, the actions taken, the returns), \<^verbatim>\<open>a_probs\<close> as the
  cell computes it holds at \<open>t\<close> the probability the policy gave to the action taken at
  \<open>t\<close>, and \<^verbatim>\<open>PolicyNet.loss(a_probs, returns)\<close> is the negative of the mean over all
  timesteps \<open>t\<close> of \<open>log(a_probs[t]) * returns[t]\<close>. The probabilities of the actions
  taken are positive, as a softmax gives them.
\<close>

theorem policy_loss_negative_mean:
  assumes "0 < N"
    and "length probs = N" and "length actions = N" and "length returns = N"
    and "\<forall>t < N. actions ! t < length (probs ! t)"
    and "\<forall>t < N. 0 < probs ! t ! (actions ! t)"
  shows "\<exists>a_probs. gather1 probs actions = Inr a_probs
           \<and> length a_probs = N
           \<and> (\<forall>t < N. a_probs ! t = probs ! t ! (actions ! t))
           \<and> loss a_probs returns
               = Inr (- ((\<Sum>t < N. ln (probs ! t ! (actions ! t)) * returns ! t) / real N))"
proof -
  let ?a = "map2 (\<lambda>row a. row ! a) probs actions"
  have g: "gather1 probs actions = Inr ?a"
    using assms by (intro gather1_nth) simp_all
  have len: "length ?a = N"
    using assms by simp
  have nth: "\<forall>t < N. ?a ! t = probs ! t ! (actions ! t)"
    using assms by simp
  have "loss ?a returns
          = Inr (- ((\<Sum>t < length ?a. ln (?a ! t) * returns ! t) / real (length ?a)))"
    using assms len by (intro loss_formula) simp
  also have "(\<Sum>t < length ?a. ln (?a ! t) * returns ! t)
               = (\<Sum>t < N. ln (probs ! t ! (actions ! t)) * returns ! t)"
    using len nth by (intro sum.cong) simp_all
  finally have "loss ?a returns
      = Inr (- ((\<Sum>t < N. ln (probs ! t ! (actions ! t)) * returns ! t) / real N))"
    using len by simp
  with g len nth show ?thesis by blast
qed

theorem policy_loss_negative_mean_witness:
  "(0::nat) < 2
   \<and> length [[1 / 2, 1 / 2], [1, 3 :: real]] = 2
   \<and> length [1, 0 :: nat] = 2
   \<and> length [3, 2 :: real] = 2
   \<and> [1, 0 :: nat] ! 0 < length ([[1 / 2, 1 / 2], [1, 3 :: real]] ! 0)
   \<and> [1, 0 :: nat] ! 1 < length ([[1 / 2, 1 / 2], [1, 3 :: real]] ! 1)
   \<and> 0 < [[1 / 2, 1 / 2], [1, 3 :: real]] ! 0 ! ([1, 0 :: nat] ! 0)
   \<and> 0 < [[1 / 2, 1 / 2], [1, 3 :: real]] ! 1 ! ([1, 0 :: nat] ! 1)
   \<and> gather1 [[1 / 2, 1 / 2], [1, 3]] [1, 0] = Inr [1 / 2, 1]
   \<and> loss [1 / 2, 1] [3, 2] = Inr (- ((ln (1 / 2) * 3 + ln 1 * 2) / 2))"
proof -
  have h: "(0::nat) < 2" "length [[1 / 2, 1 / 2], [1, 3 :: real]] = 2"
    "length [1, 0 :: nat] = 2" "length [3, 2 :: real] = 2"
    by simp_all
  have r: "\<forall>t < (2::nat). [1, 0 :: nat] ! t < length ([[1 / 2, 1 / 2], [1, 3 :: real]] ! t)"
    by (simp add: less_Suc_eq numeral_2_eq_2)
  have p: "\<forall>t < (2::nat). 0 < [[1 / 2, 1 / 2], [1, 3 :: real]] ! t ! ([1, 0 :: nat] ! t)"
    by (simp add: less_Suc_eq numeral_2_eq_2)
  from policy_loss_negative_mean [OF h r p] show ?thesis
    by (auto simp: lessThan_Suc numeral_2_eq_2)
qed

section \<open>\<^verbatim>\<open>compute_returns\<close> without discount, and the sum of the rewards\<close>

text \<open>
  The exponent can be computed from the number of bits of an integer: of \<open>\<lfloor>x\<rfloor>\<close> when
  \<open>x \<ge> 1\<close>, of \<open>\<lceil>1 / x\<rceil> - 1\<close> when \<open>x < 1\<close>. This is the equation by which \<open>ilog2\<close>,
  and with it the arithmetic of \<open>float64\<close>, is evaluated.
\<close>

lemma ilog2_eqI:
  assumes "0 < x" and "2 powi e \<le> x" and "x < 2 powi (e + 1)"
  shows "ilog2 x = e"
proof -
  have "2 powr real_of_int e \<le> x" and "x < 2 powr (real_of_int e + 1)"
    using assms(2,3) powr_real_of_int' [of 2 e] powr_real_of_int' [of 2 "e + 1"]
    by (simp_all add: add.commute)
  with assms(1) have "\<lfloor>log 2 x\<rfloor> = e"
    by (simp add: floor_log_eq_powr_iff)
  with assms(1) show ?thesis by (simp add: ilog2_def)
qed

lemma ilog2_ge_1:
  assumes "1 \<le> x"
  shows "ilog2 x = bitlen \<lfloor>x\<rfloor> - 1"
proof (rule ilog2_eqI)
  let ?n = "\<lfloor>x\<rfloor>"
  from assms show "0 < x" by simp
  from assms have n: "0 < ?n" by simp
  then have b: "1 \<le> bitlen ?n" by (auto simp: bitlen_alt_def)
  from bitlen_bounds [OF n]
  have lo: "2 ^ nat (bitlen ?n - 1) \<le> ?n" and hi: "?n < 2 ^ nat (bitlen ?n)"
    by simp_all
  from lo have "real_of_int (2 ^ nat (bitlen ?n - 1)) \<le> real_of_int ?n"
    by (simp only: of_int_le_iff)
  also have "\<dots> \<le> x" by simp
  finally show "2 powi (bitlen ?n - 1) \<le> x"
    using b by (simp add: power_int_def)
  from hi have "?n + 1 \<le> 2 ^ nat (bitlen ?n)" by simp
  then have "real_of_int (?n + 1) \<le> real_of_int (2 ^ nat (bitlen ?n))"
    by (simp only: of_int_le_iff)
  then have "real_of_int ?n + 1 \<le> 2 ^ nat (bitlen ?n)" by simp
  moreover have "x < real_of_int ?n + 1" by linarith
  ultimately have "x < 2 ^ nat (bitlen ?n)" by linarith
  then show "x < 2 powi (bitlen ?n - 1 + 1)"
    using b by (simp add: power_int_def)
qed

lemma ilog2_less_1:
  assumes "0 < x" and "x < 1"
  shows "ilog2 x = - bitlen (\<lceil>1 / x\<rceil> - 1)"
proof -
  define y where "y = 1 / x"
  define m where "m = \<lceil>y\<rceil> - 1"
  define b where "b = bitlen m"
  define P :: real where "P = 2 ^ nat b"
  define Q :: real where "Q = 2 ^ nat (b - 1)"
  from assms have y: "1 < y" and xy: "x = 1 / y"
    by (simp_all add: y_def)
  from y have m: "0 < m"
    by (simp add: m_def less_ceiling_iff)
  then have b: "1 \<le> b"
    by (auto simp: b_def bitlen_alt_def)
  from bitlen_bounds [OF m]
  have lo: "2 ^ nat (b - 1) \<le> m" and hi: "m + 1 \<le> 2 ^ nat b"
    by (simp_all add: b_def)
  have above: "real_of_int m < y" and below: "y \<le> real_of_int m + 1"
    using ceiling_correct [of y] by (simp_all add: m_def)
  from lo have "real_of_int (2 ^ nat (b - 1)) \<le> real_of_int m"
    by (simp only: of_int_le_iff)
  then have "Q \<le> real_of_int m"
    by (simp add: Q_def)
  with above have Qy: "Q < y" by simp
  from hi have "real_of_int (m + 1) \<le> real_of_int (2 ^ nat b)"
    by (simp only: of_int_le_iff)
  then have "real_of_int m + 1 \<le> P"
    by (simp add: P_def)
  with below have yP: "y \<le> P" by simp
  have Qpos: "0 < Q" by (simp add: Q_def)
  from y yP have "1 / P \<le> 1 / y"
    by (intro divide_left_mono) simp_all
  then have low: "1 / P \<le> x"
    by (simp only: xy)
  from Qpos Qy have "1 / y < 1 / Q"
    by (intro divide_strict_left_mono) simp_all
  then have high: "x < 1 / Q"
    by (simp only: xy)
  from b have p1: "(2::real) powi (- b) = 1 / P"
    by (simp add: power_int_def P_def inverse_eq_divide power_one_over)
  from b have p2: "(2::real) powi (- b + 1) = 1 / Q"
    by (cases "b = 1")
      (simp_all add: power_int_def Q_def inverse_eq_divide power_one_over nat_diff_distrib)
  have "ilog2 x = - b"
    using assms(1) low high by (intro ilog2_eqI) (simp_all only: p1 p2)
  then show ?thesis
    by (simp only: b_def m_def y_def)
qed

lemma ilog2_code [code]:
  "ilog2 x =
     (if 0 < x then (if 1 \<le> x then bitlen \<lfloor>x\<rfloor> - 1 else - bitlen (\<lceil>1 / x\<rceil> - 1))
      else 0)"
  using ilog2_ge_1 [of x] ilog2_less_1 [of x] by (simp add: ilog2_def)











section \<open>Properties of the rollout loop\<close>

text \<open>
  One round of the loop ends in one of three ways: an exception before the append, with
  nothing appended; the append of one triple, followed by an exception or by the
  \<^verbatim>\<open>break\<close> on a true flag; or the append of one triple with a false flag, followed by the
  rest of the loop.
\<close>

lemma collect_rollout_round:
  assumes "collect_rollout c (j # js) s w rollout dones = (rollout', dones', res)"
  shows "(rollout' = rollout \<and> dones' = dones \<and> isl res)
         \<or> (\<exists>a r d. rollout' = rollout @ [(s, a, r)] \<and> dones' = dones @ [d] \<and> (isl res \<or> d))
         \<or> (\<exists>a r s1 w9. collect_rollout c js s1 w9 (rollout @ [(s, a, r)]) (dones @ [False])
               = (rollout', dones', res))"
  using assms by (auto split: sum.splits prod.splits if_splits)

text \<open>
  The loop invariant: the loop only appends, one triple for each flag; it appends at most
  one triple for each value of \<open>j\<close>; only the last flag appended can be true; and when it
  ends without an exception before \<open>j\<close> has run through all its values, the last flag is
  true.
\<close>

lemma collect_rollout_grows:
  assumes "collect_rollout c js s w rollout dones = (rollout', dones', res)"
  shows "\<exists>new_steps new_dones.
           rollout' = rollout @ new_steps \<and> dones' = dones @ new_dones
           \<and> length new_steps = length new_dones
           \<and> length new_dones \<le> length js
           \<and> (\<forall>k. Suc k < length new_dones \<longrightarrow> \<not> new_dones ! k)
           \<and> (\<not> isl res \<and> length new_dones < length js \<longrightarrow> new_dones \<noteq> [] \<and> last new_dones)"
  using assms
proof (induction js arbitrary: s w rollout dones)
  case Nil
  then show ?case by simp
next
  case (Cons j js)
  from collect_rollout_round [OF Cons.prems]
  consider (raised) "rollout' = rollout" "dones' = dones" "isl res"
    | (last) a r d where "rollout' = rollout @ [(s, a, r)]" "dones' = dones @ [d]" "isl res \<or> d"
    | (more) a r s1 w9 where
        "collect_rollout c js s1 w9 (rollout @ [(s, a, r)]) (dones @ [False])
           = (rollout', dones', res)"
    by blast
  then show ?case
  proof cases
    case raised
    then show ?thesis
      by (intro exI [of _ "[]"]) simp
  next
    case last
    then show ?thesis
      by (intro exI [of _ "[(s, a, r)]"] exI [of _ "[d]"]) auto
  next
    case more
    from Cons.IH [OF more] obtain ns nd where
      r': "rollout' = (rollout @ [(s, a, r)]) @ ns"
      and d': "dones' = (dones @ [False]) @ nd"
      and len: "length ns = length nd"
      and le: "length nd \<le> length js"
      and no: "\<forall>k. Suc k < length nd \<longrightarrow> \<not> nd ! k"
      and stop: "\<not> isl res \<and> length nd < length js \<longrightarrow> nd \<noteq> [] \<and> last nd"
      by blast
    have no': "\<forall>k. Suc k < length (False # nd) \<longrightarrow> \<not> (False # nd) ! k"
    proof (intro allI impI)
      fix k
      assume "Suc k < length (False # nd)"
      then show "\<not> (False # nd) ! k"
        using no by (cases k) simp_all
    qed
    show ?thesis
      using r' d' len le no' stop
      by (intro exI [of _ "(s, a, r) # ns"] exI [of _ "False # nd"]) auto
  qed
qed

text \<open>
  Claim C5. In every training iteration the rollout loop runs over \<^verbatim>\<open>range(rollout_limit)\<close>
  (\<open>500\<close> in the notebook's settings) from an empty rollout. However it ends, the rollout
  has at most \<open>rollout_limit\<close> triples, one for each \<^verbatim>\<open>done\<close> flag seen, and every flag
  but the last is false; when it ends without an exception on a rollout shorter than the
  limit, the last flag is true: the loop stopped at the first step whose flag was true.
\<close>

theorem rollout_within_limit:
  assumes "collect_rollout c [0 ..< rollout_limit cfg] s w [] [] = (rollout, dones, res)"
  shows "length rollout \<le> rollout_limit cfg
         \<and> length dones = length rollout
         \<and> (\<forall>k. Suc k < length dones \<longrightarrow> \<not> dones ! k)
         \<and> (\<not> isl res \<and> length rollout < rollout_limit cfg \<longrightarrow> dones \<noteq> [] \<and> last dones)"
  using collect_rollout_grows [OF assms] by auto

theorem rollout_within_limit_witness:
  "collect_rollout (toy KeyboardInterrupt 0 None) [0 ..< rollout_limit settings] 3 (0, 3, 0) [] []
     = ([(3, 1, 1), (2, 0, 1), (1, 1, 1)], [False, False, True], Inr (0, (0, 0, 21)))
   \<and> rollout_limit settings = 500
   \<and> length [(3, 1, 1), (2, 0, 1), (1 :: nat, 1 :: nat, 1 :: real)] \<le> rollout_limit settings
   \<and> last [False, False, True]
   \<and> collect_rollout (toy KeyboardInterrupt 0 None) [0 ..< rollout_limit small] 9 (0, 9, 0) [] []
     = ([(9, 1, 1), (8, 0, 1), (7, 1, 1), (6, 0, 1), (5, 1, 1)],
        [False, False, False, False, False], Inr (4, (0, 4, 35)))
   \<and> length [(9, 1, 1), (8, 0, 1), (7, 1, 1), (6, 0, 1), (5 :: nat, 1 :: nat, 1 :: real)]
         \<le> rollout_limit small
   \<and> collect_rollout (toy KeyboardInterrupt 0 (Some 10)) [0 ..< rollout_limit settings]
         3 (0, 3, 0) [] []
     = ([(3, 1, 1)], [False], Inl KeyboardInterrupt)
   \<and> length [(3 :: nat, 1 :: nat, 1 :: real)] \<le> rollout_limit settings"
proof -
  have h1: "collect_rollout (toy KeyboardInterrupt 0 None) [0 ..< rollout_limit settings]
              3 (0, 3, 0) [] []
     = ([(3, 1, 1), (2, 0, 1), (1, 1, 1)], [False, False, True], Inr (0, (0, 0, 21)))"
    by (simp add: toy_def settings_def check_signal_def upt_conv_Cons)
  have h2: "collect_rollout (toy KeyboardInterrupt 0 None) [0 ..< rollout_limit small]
              9 (0, 9, 0) [] []
     = ([(9, 1, 1), (8, 0, 1), (7, 1, 1), (6, 0, 1), (5, 1, 1)],
        [False, False, False, False, False], Inr (4, (0, 4, 35)))"
    by (simp add: toy_def small_def check_signal_def upt_conv_Cons)
  have h3: "collect_rollout (toy KeyboardInterrupt 0 (Some 10)) [0 ..< rollout_limit settings]
              3 (0, 3, 0) [] []
     = ([(3, 1, 1)], [False], Inl KeyboardInterrupt)"
    by (simp add: toy_def settings_def check_signal_def upt_conv_Cons)
  have "rollout_limit settings = 500"
    by (simp add: settings_def)
  with rollout_within_limit [OF h1] rollout_within_limit [OF h2] rollout_within_limit [OF h3]
    h1 h2 h3
  show ?thesis
    by simp
qed

section \<open>Properties of the training cell\<close>

text \<open>
  A round of the loop only appends to the lists, and a round that ends without an
  exception has appended one reward and one loss.
\<close>

lemma iteration_extends:
  assumes "iteration c cfg i m w = (m', r)"
  shows "prefix (training_rewards m) (training_rewards m')
         \<and> prefix (losses m) (losses m')
         \<and> prefix (printed m) (printed m')"
  using assms
  by (auto simp: iteration_def Let_def split: sum.splits prod.splits if_splits)

lemma iteration_completes:
  assumes "iteration c cfg i m w = (m', Inr w')"
  shows "length (training_rewards m') = Suc (length (training_rewards m))
         \<and> length (losses m') = Suc (length (losses m))"
  using assms
  by (auto simp: iteration_def Let_def split: sum.splits prod.splits if_splits)

text \<open>
  An exception raised in the episode ends the round with the metrics untouched.
\<close>

lemma iteration_episode_raises:
  assumes "train_episode c cfg w = Inl e"
  shows "iteration c cfg i m w = (m, Inl e)"
  using assms by (simp add: iteration_def)

text \<open>
  The loop over the episodes ends at the first round that raises, with the metrics that
  round leaves.
\<close>

lemma training_loop_append:
  "training_loop c cfg (xs @ ys) m w =
     (case training_loop c cfg xs m w of
        (m1, Inl e) \<Rightarrow> (m1, Inl e)
      | (m1, Inr w1) \<Rightarrow> training_loop c cfg ys m1 w1)"
  by (induction xs arbitrary: m w) (auto split: sum.splits prod.splits)

lemma training_loop_ends_at_raise:
  assumes first: "training_loop c cfg [0 ..< k] m0 w = (mk, Inr wk)"
    and k: "k < n"
    and raised: "iteration c cfg k mk wk = (m, Inl e)"
  shows "training_loop c cfg [0 ..< n] m0 w = (m, Inl e)"
proof -
  from k have "[0 ..< n] = [0 ..< k] @ k # [Suc k ..< n]"
    using upt_add_eq_append [of 0 k "n - k"] by (simp add: upt_conv_Cons)
  with first raised show ?thesis
    by (simp add: training_loop_append)
qed

lemma training_loop_counts:
  assumes "training_loop c cfg js m w = (m', Inr w')"
  shows "length (training_rewards m') = length (training_rewards m) + length js
         \<and> length (losses m') = length (losses m) + length js"
  using assms
proof (induction js arbitrary: m w)
  case Nil
  then show ?case by simp
next
  case (Cons i js)
  from Cons.prems obtain m1 w1 where
    it: "iteration c cfg i m w = (m1, Inr w1)"
    and rest: "training_loop c cfg js m1 w1 = (m', Inr w')"
    by (auto split: sum.splits prod.splits)
  from Cons.IH [OF rest] iteration_completes [OF it] show ?case by simp
qed

text \<open>
  What the \<^verbatim>\<open>except\<close> clause makes of the loop's end.
\<close>

lemma training_cell_loop_raises:
  assumes "check_signal c w = Inr w1" and "check_signal c w1 = Inr w2"
    and "training_loop c cfg [0 ..< num_episodes cfg] initial_metrics w2 = (m, Inl e)"
  shows "training_cell c cfg w = except_KeyboardInterrupt m e"
  using assms by (simp add: training_cell_def)

text \<open>
  The call of \<^verbatim>\<open>compute_returns\<close> from the cell is \<open>compute_returns\<close> with the looks at
  the signals added: it returns what \<open>compute_returns\<close> returns, and raises what
  \<open>compute_returns\<close> raises or \<^verbatim>\<open>KeyboardInterrupt\<close>.
\<close>

lemma check_signal_raises:
  "check_signal c w = Inl e \<Longrightarrow> e = KeyboardInterrupt"
  by (simp add: check_signal_def split: option.splits)

lemma returns_loop_round:
  "returns_loop rewards \<gamma> (t # ts) returns =
     (case returns_loop rewards \<gamma> [t] returns of
        Inl e \<Rightarrow> Inl e
      | Inr returns' \<Rightarrow> returns_loop rewards \<gamma> ts returns')"
  by (simp split: sum.splits)

lemma returns_loop_call_returns:
  assumes "returns_loop_call c rewards \<gamma> ts returns w = Inr (G, w')"
  shows "returns_loop rewards \<gamma> ts returns = Inr G"
  using assms
proof (induction ts arbitrary: returns w)
  case Nil
  then show ?case by simp
next
  case (Cons t ts)
  from Cons.prems obtain w1 returns' where
    one: "returns_loop rewards \<gamma> [t] returns = Inr returns'"
    and rest: "returns_loop_call c rewards \<gamma> ts returns' w1 = Inr (G, w')"
    by (auto simp del: returns_loop.simps split: sum.splits)
  from Cons.IH [OF rest] one show ?case
    by (simp only: returns_loop_round [of rewards \<gamma> t ts] sum.case)
qed

lemma returns_loop_call_raises:
  assumes "returns_loop_call c rewards \<gamma> ts returns w = Inl e"
  shows "e = KeyboardInterrupt \<or> returns_loop rewards \<gamma> ts returns = Inl e"
  using assms
proof (induction ts arbitrary: returns w)
  case Nil
  then show ?case by simp
next
  case (Cons t ts)
  show ?case
  proof (cases "check_signal c w")
    case (Inl e')
    with Cons.prems have "e' = e" by simp
    with Inl check_signal_raises [of c w e'] show ?thesis by simp
  next
    case w1: (Inr w1)
    show ?thesis
    proof (cases "returns_loop rewards \<gamma> [t] returns")
      case (Inl e')
      with Cons.prems w1 have "e' = e"
        by (simp del: returns_loop.simps)
      with Inl have "returns_loop rewards \<gamma> (t # ts) returns = Inl e"
        by (simp only: returns_loop_round [of rewards \<gamma> t ts] sum.case)
      then show ?thesis by blast
    next
      case (Inr returns')
      with Cons.prems w1 have "returns_loop_call c rewards \<gamma> ts returns' w1 = Inl e"
        by (simp del: returns_loop.simps)
      from Cons.IH [OF this] Inr show ?thesis
        by (simp only: returns_loop_round [of rewards \<gamma> t ts] sum.case)
    qed
  qed
qed

lemma compute_returns_call_returns:
  assumes "compute_returns_call c rewards \<gamma> w = Inr (G, w')"
  shows "compute_returns rewards \<gamma> = Inr G"
proof -
  from assms obtain r returns w2 w3 where
    "getitem rewards (- 1) = Inr r"
    and "setitem (np_zeros (length rewards)) (- 1) r = Inr returns"
    and "returns_loop_call c rewards \<gamma> (rev [0 ..< length rewards - 1]) returns w2
           = Inr (G, w3)"
    by (auto simp: compute_returns_call_def split: sum.splits)
  with returns_loop_call_returns [OF this(3)] show ?thesis
    by (simp add: compute_returns_def)
qed

lemma compute_returns_call_raises:
  assumes "compute_returns_call c rewards \<gamma> w = Inl e"
  shows "e = KeyboardInterrupt \<or> compute_returns rewards \<gamma> = Inl e"
proof (cases "e = KeyboardInterrupt")
  case True
  then show ?thesis by simp
next
  case e: False
  from e check_signal_raises [of c _ e] have pass: "check_signal c w' \<noteq> Inl e" for w'
    by blast
  from assms e obtain w1 w2 where
    w1: "check_signal c w = Inr w1" and w2: "check_signal c w1 = Inr w2"
    using check_signal_raises [of c]
    by (auto simp: compute_returns_call_def split: sum.splits)
  have "compute_returns rewards \<gamma> = Inl e"
  proof (cases "getitem rewards (- 1)")
    case (Inl e')
    with assms w1 w2 show ?thesis
      by (simp add: compute_returns_call_def compute_returns_def)
  next
    case r: (Inr r)
    show ?thesis
    proof (cases "setitem (np_zeros (length rewards)) (- 1) r")
      case (Inl e')
      with assms w1 w2 r show ?thesis
        by (simp add: compute_returns_call_def compute_returns_def)
    next
      case (Inr returns)
      let ?ts = "rev [0 ..< length rewards - 1]"
      have "returns_loop_call c rewards \<gamma> ?ts returns w2 = Inl e"
      proof (cases "returns_loop_call c rewards \<gamma> ?ts returns w2")
        case (Inl e')
        with assms w1 w2 r Inr show ?thesis
          by (simp add: compute_returns_call_def)
      next
        case (Inr res)
        obtain G w3 where "res = (G, w3)" by (cases res) auto
        with assms w1 w2 r \<open>setitem (np_zeros (length rewards)) (- 1) r = Inr returns\<close> Inr
        have "check_signal c w3 = Inl e"
          by (simp add: compute_returns_call_def split: sum.splits)
        with pass show ?thesis by blast
      qed
      from returns_loop_call_raises [OF this] e
      have "returns_loop rewards \<gamma> ?ts returns = Inl e" by blast
      with r Inr show ?thesis
        by (simp add: compute_returns_def)
    qed
  qed
  then show ?thesis by simp
qed

text \<open>
  An interruption before the loop over the episodes, or after it before the last
  \<^verbatim>\<open>print\<close>, ends the cell without an exception too.
\<close>

lemma training_cell_interrupted_before_loop:
  assumes "signal c w = None \<or> (\<exists>w1. signal c w = Some w1 \<and> signal c w1 = None)"
  shows "training_cell c cfg w
           = (\<lparr>training_rewards = [], losses = [], printed = [Interrupt]\<rparr>, None)"
  using assms
  by (auto simp: training_cell_def check_signal_def except_KeyboardInterrupt_def)

lemma training_cell_interrupted_after_loop:
  assumes "check_signal c w = Inr w1" and "check_signal c w1 = Inr w2"
    and "training_loop c cfg [0 ..< num_episodes cfg] initial_metrics w2 = (m, Inr w3)"
    and "signal c w3 = None"
  shows "training_cell c cfg w = (m\<lparr>printed := printed m @ [Interrupt]\<rparr>, None)"
  using assms
  by (simp add: training_cell_def check_signal_def except_KeyboardInterrupt_def)

text \<open>
  Claim C4. Let the cell have started, and let the first \<open>k\<close> rounds of the loop have
  completed, with metrics \<open>mk\<close>: \<open>k\<close> rewards and \<open>k\<close> losses. If then
  \<^verbatim>\<open>KeyboardInterrupt\<close> is raised in round \<open>k\<close>, the loop ends there and the cell ends
  without an exception, having printed \<^verbatim>\<open>interrupt\<close>; any other exception raised in round
  \<open>k\<close> ends the loop too and leaves the cell. The metrics the cell leaves are those at the
  raise, which extend \<open>mk\<close>: they are \<open>mk\<close> itself when the exception is raised in the
  episode (by a look at the signals or by a collaborator, such as \<^verbatim>\<open>env.reset()\<close>), and
  \<open>mk\<close> with the reward of round \<open>k\<close> appended when the interruption arrives between the
  two appends.
\<close>

theorem interrupt_exits_with_metrics:
  assumes started: "check_signal c w = Inr w1" "check_signal c w1 = Inr w2"
    and first: "training_loop c cfg [0 ..< k] initial_metrics w2 = (mk, Inr wk)"
    and k: "k < num_episodes cfg"
  shows "length (training_rewards mk) = k \<and> length (losses mk) = k
    \<and> (\<forall>m. iteration c cfg k mk wk = (m, Inl KeyboardInterrupt) \<longrightarrow>
           training_cell c cfg w = (m\<lparr>printed := printed m @ [Interrupt]\<rparr>, None)
           \<and> prefix (training_rewards mk) (training_rewards m)
           \<and> prefix (losses mk) (losses m))
    \<and> (\<forall>m e. iteration c cfg k mk wk = (m, Inl e) \<and> e \<noteq> KeyboardInterrupt \<longrightarrow>
           training_cell c cfg w = (m, Some e)
           \<and> prefix (training_rewards mk) (training_rewards m)
           \<and> prefix (losses mk) (losses m))
    \<and> (train_episode c cfg wk = Inl KeyboardInterrupt \<longrightarrow>
           training_cell c cfg w = (mk\<lparr>printed := printed mk @ [Interrupt]\<rparr>, None))
    \<and> (\<forall>e. train_episode c cfg wk = Inl e \<and> e \<noteq> KeyboardInterrupt \<longrightarrow>
           training_cell c cfg w = (mk, Some e))
    \<and> (signal c wk = None \<longrightarrow>
           training_cell c cfg w = (mk\<lparr>printed := printed mk @ [Interrupt]\<rparr>, None))
    \<and> (\<forall>wa wb. signal c wk = Some wa \<and> signal c wa = Some wb
             \<and> env_reset c wb = Inl KeyboardInterrupt \<longrightarrow>
           training_cell c cfg w = (mk\<lparr>printed := printed mk @ [Interrupt]\<rparr>, None))
    \<and> (\<forall>rewards l wa wb. train_episode c cfg wk = Inr (rewards, l, wa)
             \<and> signal c wa = Some wb \<and> signal c wb = None \<longrightarrow>
           training_cell c cfg w
             = (mk\<lparr>training_rewards := training_rewards mk @ [py_sum rewards],
                   printed := printed mk @ [Interrupt]\<rparr>, None))"
proof -
  have cell: "training_cell c cfg w = except_KeyboardInterrupt m e"
    if "iteration c cfg k mk wk = (m, Inl e)" for m e
    using training_loop_ends_at_raise [OF first k that] started
    by (intro training_cell_loop_raises)
  have episode: "training_cell c cfg w = except_KeyboardInterrupt mk e"
    if "train_episode c cfg wk = Inl e" for e
    using cell [OF iteration_episode_raises [OF that]] .
  from training_loop_counts [OF first]
  have c1: "length (training_rewards mk) = k" and c2: "length (losses mk) = k"
    by (simp_all add: initial_metrics_def)
  have c3: "\<forall>m. iteration c cfg k mk wk = (m, Inl KeyboardInterrupt) \<longrightarrow>
           training_cell c cfg w = (m\<lparr>printed := printed m @ [Interrupt]\<rparr>, None)
           \<and> prefix (training_rewards mk) (training_rewards m)
           \<and> prefix (losses mk) (losses m)"
  proof (intro allI impI)
    fix m
    assume it: "iteration c cfg k mk wk = (m, Inl KeyboardInterrupt)"
    from cell [OF it] iteration_extends [OF it]
    show "training_cell c cfg w = (m\<lparr>printed := printed m @ [Interrupt]\<rparr>, None)
           \<and> prefix (training_rewards mk) (training_rewards m)
           \<and> prefix (losses mk) (losses m)"
      by (simp add: except_KeyboardInterrupt_def)
  qed
  have c4: "\<forall>m e. iteration c cfg k mk wk = (m, Inl e) \<and> e \<noteq> KeyboardInterrupt \<longrightarrow>
           training_cell c cfg w = (m, Some e)
           \<and> prefix (training_rewards mk) (training_rewards m)
           \<and> prefix (losses mk) (losses m)"
  proof (intro allI impI)
    fix m e
    assume "iteration c cfg k mk wk = (m, Inl e) \<and> e \<noteq> KeyboardInterrupt"
    then have it: "iteration c cfg k mk wk = (m, Inl e)" and e: "e \<noteq> KeyboardInterrupt"
      by simp_all
    from cell [OF it] iteration_extends [OF it] e
    show "training_cell c cfg w = (m, Some e)
           \<and> prefix (training_rewards mk) (training_rewards m)
           \<and> prefix (losses mk) (losses m)"
      by (simp add: except_KeyboardInterrupt_def)
  qed
  have c5: "train_episode c cfg wk = Inl KeyboardInterrupt \<longrightarrow>
           training_cell c cfg w = (mk\<lparr>printed := printed mk @ [Interrupt]\<rparr>, None)"
    using episode by (auto simp: except_KeyboardInterrupt_def)
  have c6: "\<forall>e. train_episode c cfg wk = Inl e \<and> e \<noteq> KeyboardInterrupt \<longrightarrow>
           training_cell c cfg w = (mk, Some e)"
    using episode by (auto simp: except_KeyboardInterrupt_def)
  have c7: "signal c wk = None \<longrightarrow>
           training_cell c cfg w = (mk\<lparr>printed := printed mk @ [Interrupt]\<rparr>, None)"
  proof
    assume "signal c wk = None"
    then have "train_episode c cfg wk = Inl KeyboardInterrupt"
      by (simp add: train_episode_def check_signal_def)
    from episode [OF this] show
      "training_cell c cfg w = (mk\<lparr>printed := printed mk @ [Interrupt]\<rparr>, None)"
      by (simp add: except_KeyboardInterrupt_def)
  qed
  have c8: "\<forall>wa wb. signal c wk = Some wa \<and> signal c wa = Some wb
             \<and> env_reset c wb = Inl KeyboardInterrupt \<longrightarrow>
           training_cell c cfg w = (mk\<lparr>printed := printed mk @ [Interrupt]\<rparr>, None)"
  proof (intro allI impI)
    fix wa wb
    assume "signal c wk = Some wa \<and> signal c wa = Some wb
              \<and> env_reset c wb = Inl KeyboardInterrupt"
    then have "train_episode c cfg wk = Inl KeyboardInterrupt"
      by (simp add: train_episode_def check_signal_def)
    from episode [OF this] show
      "training_cell c cfg w = (mk\<lparr>printed := printed mk @ [Interrupt]\<rparr>, None)"
      by (simp add: except_KeyboardInterrupt_def)
  qed
  have c9: "\<forall>rewards l wa wb. train_episode c cfg wk = Inr (rewards, l, wa)
             \<and> signal c wa = Some wb \<and> signal c wb = None \<longrightarrow>
           training_cell c cfg w
             = (mk\<lparr>training_rewards := training_rewards mk @ [py_sum rewards],
                   printed := printed mk @ [Interrupt]\<rparr>, None)"
  proof (intro allI impI)
    fix rewards l wa wb
    assume "train_episode c cfg wk = Inr (rewards, l, wa)
              \<and> signal c wa = Some wb \<and> signal c wb = None"
    then have "iteration c cfg k mk wk
                 = (mk\<lparr>training_rewards := training_rewards mk @ [py_sum rewards]\<rparr>,
                    Inl KeyboardInterrupt)"
      by (simp add: iteration_def check_signal_def)
    from cell [OF this] show "training_cell c cfg w
             = (mk\<lparr>training_rewards := training_rewards mk @ [py_sum rewards],
                   printed := printed mk @ [Interrupt]\<rparr>, None)"
      by (simp add: except_KeyboardInterrupt_def)
  qed
  show ?thesis
    by (intro conjI; fact c1 c2 c3 c4 c5 c6 c7 c8 c9)
qed

text \<open>
  Four runs of the cell on the small collaborators. In the first the second call of
  \<^verbatim>\<open>env.reset()\<close> raises \<^verbatim>\<open>KeyboardInterrupt\<close>, after one completed round. In the second
  the interruption arrives between the two appends of the first round, in the third
  inside \<^verbatim>\<open>compute_returns\<close> in the first round. In the fourth the second call of
  \<^verbatim>\<open>env.reset()\<close> raises a \<^verbatim>\<open>TypeError\<close>.
\<close>

lemmas run_defs =
  toy_def small_def check_signal_def train_episode_def iteration_def
  compute_returns_call_def loss_call_def getitem_def setitem_def norm_index_def np_zeros_def
  loss_def torch_mul_def torch_log_def torch_mean_def initial_metrics_def py_sum_def
  upt_conv_Cons

theorem interrupt_exits_with_metrics_witness:
  "training_cell (toy KeyboardInterrupt 1 None) small (0, 0, 0)
     = (\<lparr>training_rewards = [2], losses = [- (3 * ln (1 / 2) / 2)],
          printed = [Start_training, Interrupt]\<rparr>, None)
   \<and> training_cell (toy KeyboardInterrupt 9 (Some 34)) small (0, 0, 0)
     = (\<lparr>training_rewards = [2], losses = [],
          printed = [Start_training, Interrupt]\<rparr>, None)
   \<and> training_cell (toy KeyboardInterrupt 9 (Some 25)) small (0, 0, 0)
     = (\<lparr>training_rewards = [], losses = [],
          printed = [Start_training, Interrupt]\<rparr>, None)
   \<and> training_cell (toy (Raised ''TypeError'') 1 None) small (0, 0, 0)
     = (\<lparr>training_rewards = [2], losses = [- (3 * ln (1 / 2) / 2)],
          printed = [Start_training]\<rparr>, Some (Raised ''TypeError''))"
proof -
  let ?m1 = "\<lparr>training_rewards = [2], losses = [- (3 * ln (1 / 2) / 2)],
              printed = [Start_training]\<rparr>"
  have small: "(1::nat) < num_episodes small" "(0::nat) < num_episodes small"
    by (simp_all add: small_def)
  \<comment> \<open>the second \<^verbatim>\<open>env.reset()\<close> raises \<^verbatim>\<open>KeyboardInterrupt\<close>\<close>
  let ?a = "toy KeyboardInterrupt 1 None"
  have a1: "check_signal ?a (0, 0, 0) = Inr (0, 0, 1)"
    and a2: "check_signal ?a (0, 0, 1) = Inr (0, 0, 2)"
    by (simp_all add: toy_def check_signal_def)
  have a3: "training_loop ?a small [0 ..< 1] initial_metrics (0, 0, 2) = (?m1, Inr (1, 0, 36))"
    by (simp add: run_defs)
  have a4: "signal ?a (1, 0, 36) = Some (1, 0, 37) \<and> signal ?a (1, 0, 37) = Some (1, 0, 38)
              \<and> env_reset ?a (1, 0, 38) = Inl KeyboardInterrupt"
    by (simp add: toy_def)
  from interrupt_exits_with_metrics [OF a1 a2 a3 small(1)] a4
  have a: "training_cell ?a small (0, 0, 0) = (?m1\<lparr>printed := printed ?m1 @ [Interrupt]\<rparr>, None)"
    by blast
  \<comment> \<open>the interruption arrives between the two appends\<close>
  let ?b = "toy KeyboardInterrupt 9 (Some 34)"
  have b1: "check_signal ?b (0, 0, 0) = Inr (0, 0, 1)"
    and b2: "check_signal ?b (0, 0, 1) = Inr (0, 0, 2)"
    by (simp_all add: toy_def check_signal_def)
  have b3: "training_loop ?b small [0 ..< 0] initial_metrics (0, 0, 2)
              = (initial_metrics, Inr (0, 0, 2))"
    by simp
  have b4: "train_episode ?b small (0, 0, 2) = Inr ([1, 1], - (3 * ln (1 / 2) / 2), (1, 0, 33))
              \<and> signal ?b (1, 0, 33) = Some (1, 0, 34) \<and> signal ?b (1, 0, 34) = None"
    by (simp add: run_defs)
  from interrupt_exits_with_metrics [OF b1 b2 b3 small(2)] b4
  have b: "training_cell ?b small (0, 0, 0)
             = (initial_metrics\<lparr>training_rewards :=
                   training_rewards initial_metrics @ [py_sum [1, 1]],
                 printed := printed initial_metrics @ [Interrupt]\<rparr>, None)"
    by blast
  \<comment> \<open>the interruption arrives inside \<^verbatim>\<open>compute_returns\<close>\<close>
  let ?c = "toy KeyboardInterrupt 9 (Some 25)"
  have c1: "check_signal ?c (0, 0, 0) = Inr (0, 0, 1)"
    and c2: "check_signal ?c (0, 0, 1) = Inr (0, 0, 2)"
    by (simp_all add: toy_def check_signal_def)
  have c3: "training_loop ?c small [0 ..< 0] initial_metrics (0, 0, 2)
              = (initial_metrics, Inr (0, 0, 2))"
    by simp
  have c4: "train_episode ?c small (0, 0, 2) = Inl KeyboardInterrupt"
    by (simp add: run_defs)
  from interrupt_exits_with_metrics [OF c1 c2 c3 small(2)] c4
  have c: "training_cell ?c small (0, 0, 0)
             = (initial_metrics\<lparr>printed := printed initial_metrics @ [Interrupt]\<rparr>, None)"
    by blast
  \<comment> \<open>the second \<^verbatim>\<open>env.reset()\<close> raises another exception\<close>
  let ?d = "toy (Raised ''TypeError'') 1 None"
  have d1: "check_signal ?d (0, 0, 0) = Inr (0, 0, 1)"
    and d2: "check_signal ?d (0, 0, 1) = Inr (0, 0, 2)"
    by (simp_all add: toy_def check_signal_def)
  have d3: "training_loop ?d small [0 ..< 1] initial_metrics (0, 0, 2) = (?m1, Inr (1, 0, 36))"
    by (simp add: run_defs)
  have d4: "train_episode ?d small (1, 0, 36) = Inl (Raised ''TypeError'')
              \<and> Raised ''TypeError'' \<noteq> KeyboardInterrupt"
    by (simp add: run_defs)
  from interrupt_exits_with_metrics [OF d1 d2 d3 small(1)] d4
  have d: "training_cell ?d small (0, 0, 0) = (?m1, Some (Raised ''TypeError''))"
    by blast
  from a b c d show ?thesis
    by (simp add: initial_metrics_def py_sum_def)
qed

end
